theory Spec2Isabelle
  imports Main "HOL-Library.Sublist"
begin

section \<open>Data model\<close>

text \<open>
  \<open>reflect.Kind\<close>, grouped the way the \<open>switch\<close> of \<open>convertString\<close> groups it: the
  signed kinds, the unsigned kinds, the two float kinds, and the kinds that the
  switch sends to \<open>default\<close> (\<open>GoInt\<close> is \<open>reflect.Int\<close>). \<open>Uintptr\<close> is not in the
  unsigned case of the
  source, so it sits with the others.
\<close>

datatype intKind = GoInt | Int8 | Int16 | Int32 | Int64

datatype uintKind = Uint | Uint8 | Uint16 | Uint32 | Uint64

datatype floatKind = Float32 | Float64

datatype otherKind =
  Uintptr | Complex64 | Complex128 | Array | Chan | Func | Interface | Map
  | Slice | Struct | UnsafePointer

datatype kind =
  Bool | Signed intKind | Unsigned uintKind | Float floatKind | String | Ptr
  | Other otherKind

text \<open>\<open>Kind.String()\<close>, what the verb \<open>%v\<close> prints for a kind.\<close>

fun kindString :: "kind \<Rightarrow> string" where
  "kindString Bool = ''bool''"
| "kindString (Signed GoInt) = ''int''"
| "kindString (Signed Int8) = ''int8''"
| "kindString (Signed Int16) = ''int16''"
| "kindString (Signed Int32) = ''int32''"
| "kindString (Signed Int64) = ''int64''"
| "kindString (Unsigned Uint) = ''uint''"
| "kindString (Unsigned Uint8) = ''uint8''"
| "kindString (Unsigned Uint16) = ''uint16''"
| "kindString (Unsigned Uint32) = ''uint32''"
| "kindString (Unsigned Uint64) = ''uint64''"
| "kindString (Float Float32) = ''float32''"
| "kindString (Float Float64) = ''float64''"
| "kindString String = ''string''"
| "kindString Ptr = ''ptr''"
| "kindString (Other Uintptr) = ''uintptr''"
| "kindString (Other Complex64) = ''complex64''"
| "kindString (Other Complex128) = ''complex128''"
| "kindString (Other Array) = ''array''"
| "kindString (Other Chan) = ''chan''"
| "kindString (Other Func) = ''func''"
| "kindString (Other Interface) = ''interface''"
| "kindString (Other Map) = ''map''"
| "kindString (Other Slice) = ''slice''"
| "kindString (Other Struct) = ''struct''"
| "kindString (Other UnsafePointer) = ''unsafe.Pointer''"

text \<open>
  The value held by a field slot. Floats are kept abstract (type \<open>'f\<close>); a pointer is
  nil (\<open>None\<close>) or points to a value; a value of a kind the decoder never looks into
  carries its kind only.
\<close>

datatype 'f gval =
  VBool bool
  | VInt intKind int
  | VUint uintKind nat
  | VFloat floatKind 'f
  | VString string
  | VPtr "'f gval option"
  | VOther otherKind

fun Kind :: "'f gval \<Rightarrow> kind" where
  "Kind (VBool b) = Bool"
| "Kind (VInt k n) = Signed k"
| "Kind (VUint k n) = Unsigned k"
| "Kind (VFloat k x) = Float k"
| "Kind (VString s) = String"
| "Kind (VPtr p) = Ptr"
| "Kind (VOther k) = Other k"

fun IsNil :: "'f gval \<Rightarrow> bool" where
  "IsNil (VPtr None) = True"
| "IsNil v = False"

subsection \<open>Errors\<close>

datatype numErr = ErrSyntax | ErrRange

text \<open>\<open>strconv.NumError\<close>: the function, the input and the cause.\<close>

datatype numError = NumError string string numErr

text \<open>
  The errors \<open>Decode\<close> can return: one constructor for each \<open>fmt.Errorf\<close> of the
  source, the parse errors of \<open>strconv\<close> passed on as they are, and the error a
  \<open>DecodeValues\<close> method returned (its text).
\<close>

datatype error =
  ExpectsStruct kind
  | NilPointer
  | Incompatible string kind
  | Unsupported kind
  | ParseError numError
  | DecoderError string

text \<open>
  How one field, or the whole call, ends: \<open>Success\<close> is the nil error, \<open>Failure\<close> a
  returned error, \<open>Panic\<close> a run-time panic. Not returning at all is the value
  \<open>None\<close> of the option type around it.
\<close>

datatype result = Success | Failure error | Panic

subsection \<open>Library primitives taken as parameters\<close>

text \<open>
  What the source uses of the Go library and is not modelled here bit by bit: the
  width of \<open>int\<close> and \<open>uint\<close> on the platform, \<open>strconv.ParseFloat(s, 64)\<close>,
  \<open>Value.OverflowFloat\<close> on a \<open>float32\<close> slot, the conversion \<open>float32(x)\<close> done by
  \<open>Value.SetFloat\<close> there, and the quoting of the verb \<open>%q\<close>.
\<close>

record 'f golib =
  IntSize :: nat
  ParseFloat :: "string \<Rightarrow> numError + 'f"
  OverflowFloat32 :: "'f \<Rightarrow> bool"
  toFloat32 :: "'f \<Rightarrow> 'f"
  Quote :: "string \<Rightarrow> string"

text \<open>\<open>error.Error()\<close>: the text of each error, from the format strings of the source.\<close>

fun numErrString :: "numErr \<Rightarrow> string" where
  "numErrString ErrSyntax = ''invalid syntax''"
| "numErrString ErrRange = ''value out of range''"

fun errorText :: "'f golib \<Rightarrow> error \<Rightarrow> string" where
  "errorText L (ExpectsStruct k) =
     ''query:  Decode() expects struct input.  Got '' @ kindString k"
| "errorText L NilPointer = ''query:  Attempt to Decode() into nil pointer''"
| "errorText L (Incompatible s k) =
     ''query:  Query arg value '' @ Quote L s
       @ '' incompatible with field value type '' @ kindString k"
| "errorText L (Unsupported k) =
     ''query:  Unsupported field value type '' @ kindString k"
| "errorText L (ParseError (NumError f s e)) =
     ''strconv.'' @ f @ '': parsing '' @ Quote L s @ '': '' @ numErrString e"
| "errorText L (DecoderError s) = s"

subsection \<open>Fields, records and targets\<close>

text \<open>
  Whether the type of a field implements \<open>Decoder\<close>. When it does, the method of the
  value the field holds is a function from the string it is given and the field's
  value to the error it returns (its text, if any) and the field's value
  afterwards. The method is code of the caller: it is taken to return, not to
  panic, and to touch no other field of the record. \<open>NilDecoder\<close> is a field whose
  type implements \<open>Decoder\<close> but whose value has no method that can be called: a
  nil interface of a type that includes \<open>DecodeValues\<close>, where the assertion
  \<open>sv.Interface().(Decoder)\<close> panics, or a nil pointer to a type whose
  \<open>DecodeValues\<close> has a value receiver, where the call panics.
\<close>

datatype 'f decoderImpl =
  NotDecoder
  | DecodeValues "string \<Rightarrow> 'f gval \<Rightarrow> string option \<times> 'f gval"
  | NilDecoder

text \<open>
  A field of the target record: what \<open>reflect.StructField\<close> says of it (\<open>Name\<close>,
  \<open>PkgPath\<close>, \<open>Anonymous\<close>, and \<open>Tag\<close>, the result of \<open>sf.Tag.Get("url")\<close>), whether its
  type implements \<open>Decoder\<close>, and the value in its slot.
\<close>

record 'f field =
  Name :: string
  PkgPath :: string
  Anonymous :: bool
  Tag :: string
  Impl :: "'f decoderImpl"
  Val :: "'f gval"

text \<open>\<open>url.Values\<close>: a map from a key to a sequence of strings.\<close>

type_synonym Values = "string \<rightharpoonup> string list"

text \<open>
  What the argument \<open>v\<close> of \<open>Decode\<close> holds when it is not the nil interface: a nil
  pointer, a pointer to such a value, a struct with its fields, or a value of
  another kind (never \<open>Ptr\<close> nor \<open>Struct\<close>).
\<close>

datatype 'f tvalue =
  NilPtr
  | PtrTo "'f tvalue"
  | StructVal "'f field list"
  | OtherVal kind

section \<open>The library functions the decoder calls\<close>

subsection \<open>\<open>strconv\<close>\<close>

text \<open>
  \<open>strconv.ParseUint(s, 10, 64)\<close>: the empty string is a syntax error; the bytes are
  read from the left, a byte that is not a decimal digit is a syntax error, and
  the first digit that takes the number beyond \<open>2^64 - 1\<close> is a range error (the
  bytes after it are not looked at).
\<close>

definition maxUint64 :: nat where
  "maxUint64 = 2 ^ 64 - 1"

definition isDigit :: "char \<Rightarrow> bool" where
  "isDigit c = (48 \<le> (of_char c :: nat) \<and> (of_char c :: nat) \<le> 57)"

fun parseUintLoop :: "string \<Rightarrow> nat \<Rightarrow> string \<Rightarrow> numError + nat" where
  "parseUintLoop s0 n [] = Inr n"
| "parseUintLoop s0 n (c # cs) =
     (if \<not> isDigit c then Inl (NumError ''ParseUint'' s0 ErrSyntax)
      else if n \<ge> maxUint64 div 10 + 1 then Inl (NumError ''ParseUint'' s0 ErrRange)
      else let n1 = n * 10 + (of_char c - 48) in
        if n1 > maxUint64 then Inl (NumError ''ParseUint'' s0 ErrRange)
        else parseUintLoop s0 n1 cs)"

definition ParseUint :: "string \<Rightarrow> numError + nat" where
  "ParseUint s =
     (if s = [] then Inl (NumError ''ParseUint'' s ErrSyntax) else parseUintLoop s 0 s)"

text \<open>
  \<open>strconv.ParseInt(s, 10, 64)\<close>: an optional sign, then \<open>ParseUint\<close> on the rest. A
  syntax error is renamed; on a range error \<open>ParseUint\<close> has returned \<open>2^64 - 1\<close>,
  which the check against the cutoff \<open>2^63\<close> then rejects like any other number
  that is too large.
\<close>

definition ParseInt :: "string \<Rightarrow> numError + int" where
  "ParseInt s0 =
     (if s0 = [] then Inl (NumError ''ParseInt'' s0 ErrSyntax)
      else
        let neg = (hd s0 = CHR ''-'');
            s = (if hd s0 = CHR ''+'' \<or> hd s0 = CHR ''-'' then tl s0 else s0)
        in case ParseUint s of
             Inl (NumError f x ErrSyntax) \<Rightarrow> Inl (NumError ''ParseInt'' s0 ErrSyntax)
           | r \<Rightarrow>
               let un = (case r of Inr n \<Rightarrow> n | Inl e \<Rightarrow> maxUint64) in
               if \<not> neg \<and> un \<ge> 2 ^ 63 then Inl (NumError ''ParseInt'' s0 ErrRange)
               else if neg \<and> un > 2 ^ 63 then Inl (NumError ''ParseInt'' s0 ErrRange)
               else Inr (if neg then - int un else int un))"

text \<open>\<open>strconv.ParseBool\<close>.\<close>

definition ParseBool :: "string \<Rightarrow> numError + bool" where
  "ParseBool str =
     (if str \<in> set [''1'', ''t'', ''T'', ''true'', ''TRUE'', ''True''] then Inr True
      else if str \<in> set [''0'', ''f'', ''F'', ''false'', ''FALSE'', ''False''] then Inr False
      else Inl (NumError ''ParseBool'' str ErrSyntax))"

subsection \<open>\<open>reflect\<close>\<close>

text \<open>The size in bits of a signed or unsigned kind.\<close>

fun intBits :: "'f golib \<Rightarrow> intKind \<Rightarrow> nat" where
  "intBits L GoInt = IntSize L"
| "intBits L Int8 = 8"
| "intBits L Int16 = 16"
| "intBits L Int32 = 32"
| "intBits L Int64 = 64"

fun uintBits :: "'f golib \<Rightarrow> uintKind \<Rightarrow> nat" where
  "uintBits L Uint = IntSize L"
| "uintBits L Uint8 = 8"
| "uintBits L Uint16 = 16"
| "uintBits L Uint32 = 32"
| "uintBits L Uint64 = 64"

text \<open>
  \<open>Value.OverflowInt\<close> and \<open>Value.OverflowUint\<close> compare \<open>x\<close> with \<open>x\<close> shifted left and
  back right by \<open>64 - bitSize\<close>, that is with \<open>x\<close> cut to \<open>bitSize\<close> bits (the sign
  extended in the signed case). \<open>Value.SetInt\<close> and \<open>Value.SetUint\<close> store \<open>x\<close>
  converted to the type of the slot, which cuts it the same way.
\<close>

definition OverflowInt :: "'f golib \<Rightarrow> intKind \<Rightarrow> int \<Rightarrow> bool" where
  "OverflowInt L k x = (x \<noteq> signed_take_bit (intBits L k - 1) x)"

definition SetInt :: "'f golib \<Rightarrow> intKind \<Rightarrow> int \<Rightarrow> 'f gval" where
  "SetInt L k x = VInt k (signed_take_bit (intBits L k - 1) x)"

definition OverflowUint :: "'f golib \<Rightarrow> uintKind \<Rightarrow> nat \<Rightarrow> bool" where
  "OverflowUint L k x = (x \<noteq> take_bit (uintBits L k) x)"

definition SetUint :: "'f golib \<Rightarrow> uintKind \<Rightarrow> nat \<Rightarrow> 'f gval" where
  "SetUint L k x = VUint k (take_bit (uintBits L k) x)"

fun OverflowFloat :: "'f golib \<Rightarrow> floatKind \<Rightarrow> 'f \<Rightarrow> bool" where
  "OverflowFloat L Float32 x = OverflowFloat32 L x"
| "OverflowFloat L Float64 x = False"

fun SetFloat :: "'f golib \<Rightarrow> floatKind \<Rightarrow> 'f \<Rightarrow> 'f gval" where
  "SetFloat L Float32 x = VFloat Float32 (toFloat32 L x)"
| "SetFloat L Float64 x = VFloat Float64 x"

subsection \<open>Tags\<close>

text \<open>
  Modelled from the spec: \<open>parseTag\<close> and \<open>tagOptions.Contains\<close>, which \<open>absorbValue\<close>
  calls and which are defined in a file of the package that is not among the
  sources. The spec: the annotation is split on commas into a first segment, the
  name (possibly empty), and zero or more further segments, the options; the
  option set answers one query, whether it contains a flag.
\<close>

fun splitComma :: "string \<Rightarrow> string list" where
  "splitComma [] = [[]]"
| "splitComma (c # cs) =
     (if c = CHR '','' then [] # splitComma cs
      else (case splitComma cs of [] \<Rightarrow> [[c]] | w # ws \<Rightarrow> (c # w) # ws))"

definition parseTag :: "string \<Rightarrow> string \<times> string list" where
  "parseTag tag = (case splitComma tag of [] \<Rightarrow> ([], []) | s # opts \<Rightarrow> (s, opts))"

definition Contains :: "string list \<Rightarrow> string \<Rightarrow> bool" where
  "Contains opts option = (option \<in> set opts)"

section \<open>The decoder\<close>

subsection \<open>\<open>convertString\<close>\<close>

text \<open>
  The loop at the head of \<open>convertString\<close>: while the value is a pointer, return
  the error if it is nil; the statement that would step to the pointee is
  commented out in the source, so on a pointer that is not nil the loop tests the
  same value again. The loop either leaves with an error, or falls through, or
  does not end.
\<close>

partial_function (option) convertString_loop :: "'f gval \<Rightarrow> error option option" where
  "convertString_loop v =
     (if Kind v = Ptr then
        (if IsNil v then Some (Some NilPointer) else convertString_loop v)
      else Some None)"

text \<open>
  \<open>convertString(toxicStr, v, opts)\<close>. The reflected value \<open>v\<close> is its value and
  whether it can be set; the result is the error and the value of the slot
  afterwards.
\<close>

definition convertString ::
  "'f golib \<Rightarrow> string \<Rightarrow> bool \<Rightarrow> 'f gval \<Rightarrow> string list \<Rightarrow> (result \<times> 'f gval) option" where
  "convertString L toxicStr canSet v opts =
     (case convertString_loop v of
        None \<Rightarrow> None
      | Some (Some e) \<Rightarrow> Some (Failure e, v)
      | Some None \<Rightarrow>
          Some
            (if \<not> canSet then (Success, v)
             else
               (case Kind v of
                  Signed k \<Rightarrow>
                    (case ParseInt toxicStr of
                       Inl err \<Rightarrow> (Failure (ParseError err), v)
                     | Inr n \<Rightarrow>
                         if OverflowInt L k n
                         then (Failure (Incompatible toxicStr (Signed k)), v)
                         else (Success, SetInt L k n))
                | Unsigned k \<Rightarrow>
                    (case ParseUint toxicStr of
                       Inl err \<Rightarrow> (Failure (ParseError err), v)
                     | Inr n \<Rightarrow>
                         if OverflowUint L k n
                         then (Failure (Incompatible toxicStr (Unsigned k)), v)
                         else (Success, SetUint L k n))
                | Float k \<Rightarrow>
                    (case ParseFloat L toxicStr of
                       Inl err \<Rightarrow> (Failure (ParseError err), v)
                     | Inr n \<Rightarrow>
                         if OverflowFloat L k n
                         then (Failure (Incompatible toxicStr (Float k)), v)
                         else (Success, SetFloat L k n))
                | Bool \<Rightarrow>
                    (case ParseBool toxicStr of
                       Inl err \<Rightarrow> (Failure (ParseError err), v)
                     | Inr n \<Rightarrow> (Success, VBool n))
                | String \<Rightarrow> (Success, VString toxicStr)
                | kind \<Rightarrow> (Failure (Unsupported kind), v))))"

subsection \<open>\<open>absorbValue\<close>\<close>

text \<open>
  The loop of \<open>absorbValue\<close> before the call of \<open>convertString\<close>: while the field is
  a pointer, break if it is nil; here too the step to the pointee is commented
  out.
\<close>

partial_function (option) absorbValue_loop :: "'f gval \<Rightarrow> unit option" where
  "absorbValue_loop sv =
     (if Kind sv = Ptr then
        (if IsNil sv then Some () else absorbValue_loop sv)
      else Some ())"

text \<open>
  The body of the loop over the fields, for one field \<open>sf\<close> with value \<open>sv = Val sf\<close>:
  \<open>Success\<close> is \<open>continue\<close> (or the end of the body), anything else leaves
  \<open>absorbValue\<close>. \<open>canSet\<close> is \<open>sv.CanSet()\<close> for an exported field, that is, whether
  the record is addressable.
\<close>

definition absorbField ::
  "'f golib \<Rightarrow> Values \<Rightarrow> bool \<Rightarrow> string \<Rightarrow> 'f field \<Rightarrow> (result \<times> 'f field) option" where
  "absorbField L toxicValues canSet scope sf =
     (if PkgPath sf \<noteq> [] then Some (Success, sf)
      else
        let sv = Val sf; tag = Tag sf in
        if tag = ''-'' then Some (Success, sf)
        else
          let (name0, opts) = parseTag tag in
          if name0 = [] \<and> Anonymous sf \<and> Kind sv = Other Struct then Some (Success, sf)
          else
            let name = (if name0 = [] then Name sf else name0) in
            if Contains opts ''seen'' then
              (if Kind sv \<noteq> Bool \<or> \<not> canSet then Some (Success, sf)
               else if toxicValues name \<noteq> None then Some (Success, sf\<lparr>Val := VBool True\<rparr>)
               else Some (Success, sf))
            else
              let name = (if scope \<noteq> [] then scope @ ''['' @ name @ '']'' else name) in
              (case Impl sf of
                 DecodeValues m \<Rightarrow>
                   (case toxicValues name of
                      None \<Rightarrow> Some (Success, sf)
                    | Some [] \<Rightarrow> Some (Success, sf)
                    | Some (toxicValue # rest) \<Rightarrow>
                        (case m toxicValue sv of
                           (Some err, sv') \<Rightarrow> Some (Failure (DecoderError err), sf\<lparr>Val := sv'\<rparr>)
                         | (None, sv') \<Rightarrow> Some (Success, sf\<lparr>Val := sv'\<rparr>)))
               | NilDecoder \<Rightarrow>
                   (case toxicValues name of
                      None \<Rightarrow> Some (Success, sf)
                    | Some [] \<Rightarrow> Some (Success, sf)
                    | Some (toxicValue # rest) \<Rightarrow> Some (Panic, sf))
               | NotDecoder \<Rightarrow>
                   if Kind sv = Other Slice \<or> Kind sv = Other Array then Some (Success, sf)
                   else
                     (case toxicValues name of
                        None \<Rightarrow> Some (Success, sf)
                      | Some [] \<Rightarrow> Some (Success, sf)
                      | Some (toxicValue # rest) \<Rightarrow>
                          (case absorbValue_loop sv of
                             None \<Rightarrow> None
                           | Some u \<Rightarrow>
                               (case convertString L toxicValue canSet sv opts of
                                  None \<Rightarrow> None
                                | Some (r, sv') \<Rightarrow> Some (r, sf\<lparr>Val := sv'\<rparr>))))))"

text \<open>
  \<open>absorbValue(toxicValues, val, scope)\<close>: the fields in declaration order; the first
  field that does not end with \<open>Success\<close> ends the call, the fields after it
  untouched.
\<close>

fun absorbValue ::
  "'f golib \<Rightarrow> Values \<Rightarrow> bool \<Rightarrow> 'f field list \<Rightarrow> string \<Rightarrow> (result \<times> 'f field list) option" where
  "absorbValue L toxicValues canSet [] scope = Some (Success, [])"
| "absorbValue L toxicValues canSet (sf # fs) scope =
     (case absorbField L toxicValues canSet scope sf of
        None \<Rightarrow> None
      | Some (Success, sf') \<Rightarrow>
          (case absorbValue L toxicValues canSet fs scope of
             None \<Rightarrow> None
           | Some (r, fs') \<Rightarrow> Some (r, sf' # fs'))
      | Some (r, sf') \<Rightarrow> Some (r, sf' # fs))"

subsection \<open>\<open>Decode\<close>\<close>

text \<open>
  The loop of \<open>Decode\<close> over the pointers of the target, then the test of the kind
  and the call of \<open>absorbValue\<close>. \<open>canSet\<close> says whether the value was reached through
  a pointer (\<open>Elem()\<close> of a pointer is addressable, the result of \<open>reflect.ValueOf\<close>
  is not).
\<close>

fun Decode_loop ::
  "'f golib \<Rightarrow> Values \<Rightarrow> bool \<Rightarrow> 'f tvalue \<Rightarrow> (result \<times> 'f tvalue) option" where
  "Decode_loop L toxicValues canSet NilPtr = Some (Success, NilPtr)"
| "Decode_loop L toxicValues canSet (PtrTo val) =
     (case Decode_loop L toxicValues True val of
        None \<Rightarrow> None
      | Some (r, val') \<Rightarrow> Some (r, PtrTo val'))"
| "Decode_loop L toxicValues canSet (OtherVal k) =
     Some (Failure (ExpectsStruct k), OtherVal k)"
| "Decode_loop L toxicValues canSet (StructVal fs) =
     (case absorbValue L toxicValues canSet fs [] of
        None \<Rightarrow> None
      | Some (r, fs') \<Rightarrow> Some (r, StructVal fs'))"

text \<open>
  \<open>Decode(toxicValues, v)\<close>: \<open>v\<close> is the nil interface (\<open>None\<close>) or holds a value. The
  result is \<open>None\<close> when the call does not return, and otherwise how it ended and
  what the target holds afterwards.
\<close>

fun Decode ::
  "'f golib \<Rightarrow> Values \<Rightarrow> 'f tvalue option \<Rightarrow> (result \<times> 'f tvalue option) option" where
  "Decode L toxicValues None = Some (Success, None)"
| "Decode L toxicValues (Some val) =
     (case Decode_loop L toxicValues False val of
        None \<Rightarrow> None
      | Some (r, val') \<Rightarrow> Some (r, Some val'))"

section \<open>Notions used in the statements\<close>

text \<open>
  The options of a field's tag and the name under which \<open>Decode\<close> looks the field
  up (lines 97 to 106 of the source; the scope of \<open>Decode\<close> is empty, so the name
  is never qualified): the first segment of the tag, or the declared name when
  that segment is empty.
\<close>

definition tagOpts :: "'f field \<Rightarrow> string list" where
  "tagOpts sf = snd (parseTag (Tag sf))"

definition lookupName :: "'f field \<Rightarrow> string" where
  "lookupName sf = (if fst (parseTag (Tag sf)) = [] then Name sf else fst (parseTag (Tag sf)))"

text \<open>
  The field is one the loop of \<open>absorbValue\<close> does not pass over before it looks at
  the options: it is exported, its tag is not \<open>-\<close>, and it is not an embedded struct
  without a name in its tag.
\<close>

definition considered :: "'f field \<Rightarrow> bool" where
  "considered sf \<longleftrightarrow>
     PkgPath sf = [] \<and> Tag sf \<noteq> ''-''
     \<and> \<not> (fst (parseTag (Tag sf)) = [] \<and> Anonymous sf \<and> Kind (Val sf) = Other Struct)"

text \<open>
  A considered field that goes the way of the primitive conversion when a value
  is there for it: no \<open>seen\<close> option, no \<open>Decoder\<close>, not a slice nor an array.
\<close>

definition primitive :: "'f field \<Rightarrow> bool" where
  "primitive sf \<longleftrightarrow>
     considered sf \<and> \<not> Contains (tagOpts sf) ''seen'' \<and> Impl sf = NotDecoder
     \<and> Kind (Val sf) \<noteq> Other Slice \<and> Kind (Val sf) \<noteq> Other Array"

text \<open>
  Two value sequences that \<open>Decode\<close> is claimed not to tell apart: both absent,
  both empty, or both non-empty with the same first element.
\<close>

fun sameFirst :: "string list option \<Rightarrow> string list option \<Rightarrow> bool" where
  "sameFirst None None = True"
| "sameFirst (Some []) (Some []) = True"
| "sameFirst (Some (x # xs)) (Some (y # ys)) = (x = y)"
| "sameFirst a b = False"

text \<open>
  What a target refers to after its pointers are followed: nothing when a nil
  pointer is met, and otherwise the first value that is not a pointer. Then
  whether that value is a record, and the kind of a target.
\<close>

fun indirect :: "'f tvalue \<Rightarrow> 'f tvalue option" where
  "indirect NilPtr = None"
| "indirect (PtrTo val) = indirect val"
| "indirect val = Some val"

fun isStruct :: "'f tvalue \<Rightarrow> bool" where
  "isStruct (StructVal fs) = True"
| "isStruct val = False"

fun tkind :: "'f tvalue \<Rightarrow> kind" where
  "tkind NilPtr = Ptr"
| "tkind (PtrTo val) = Ptr"
| "tkind (StructVal fs) = Other Struct"
| "tkind (OtherVal k) = k"

text \<open>
  The numbers a signed and an unsigned type of \<open>w\<close> bits can hold, as the claim on
  overflow speaks of them.
\<close>

definition fitsInt :: "nat \<Rightarrow> int \<Rightarrow> bool" where
  "fitsInt w n \<longleftrightarrow> - (2 ^ (w - 1)) \<le> n \<and> n \<le> 2 ^ (w - 1) - 1"

definition fitsUint :: "nat \<Rightarrow> nat \<Rightarrow> bool" where
  "fitsUint w n \<longleftrightarrow> n \<le> 2 ^ w - 1"

text \<open>
  An instance of the library parameters for evaluating the decoder on concrete
  records: a 64-bit platform. The float functions are parameters of the model and
  no evaluation below decodes a float, so the float parser of the instance
  accepts nothing; \<open>Quote\<close> puts the string between double quotes.
\<close>

definition lib64 :: "unit golib" where
  "lib64 =
     \<lparr>IntSize = 64,
      ParseFloat = (\<lambda>s. Inl (NumError ''ParseFloat'' s ErrSyntax)),
      OverflowFloat32 = (\<lambda>x. False),
      toFloat32 = (\<lambda>x. x),
      Quote = (\<lambda>s. [CHR 0x22] @ s @ [CHR 0x22])\<rparr>"

text \<open>An exported field without a tag, of a type that does not implement \<open>Decoder\<close>.\<close>

definition plainField :: "string \<Rightarrow> 'f gval \<Rightarrow> 'f field" where
  "plainField n v =
     \<lparr>Name = n, PkgPath = [], Anonymous = False, Tag = [], Impl = NotDecoder, Val = v\<rparr>"

text \<open>An exported field with a tag, of a type that does not implement \<open>Decoder\<close>.\<close>

definition taggedField :: "string \<Rightarrow> string \<Rightarrow> 'f gval \<Rightarrow> 'f field" where
  "taggedField n tag v =
     \<lparr>Name = n, PkgPath = [], Anonymous = False, Tag = tag, Impl = NotDecoder, Val = v\<rparr>"

text \<open>
  A \<open>DecodeValues\<close> method that stores the string it is given in the field and
  returns no error, and an exported field without a tag whose type has this
  method.
\<close>

definition storeKey :: "string \<Rightarrow> 'f gval \<Rightarrow> string option \<times> 'f gval" where
  "storeKey key v = (None, VString key)"

definition decoderField :: "string \<Rightarrow> 'f gval \<Rightarrow> 'f field" where
  "decoderField n v =
     \<lparr>Name = n, PkgPath = [], Anonymous = False, Tag = [], Impl = DecodeValues storeKey,
      Val = v\<rparr>"

section \<open>Lemmas on the loops and on the walk over the fields\<close>

text \<open>
  The two pointer loops: on a value that is not a pointer and on a nil pointer
  they end; on a pointer that is not nil they do not.
\<close>

lemma absorbValue_loop_not_ptr: "Kind sv \<noteq> Ptr \<Longrightarrow> absorbValue_loop sv = Some ()"
  by (subst absorbValue_loop.simps) simp

lemma absorbValue_loop_nil: "absorbValue_loop (VPtr None) = Some ()"
  by (subst absorbValue_loop.simps) simp

lemma absorbValue_loop_Some:
  assumes "absorbValue_loop sv = Some u"
  shows "Kind sv = Ptr \<longrightarrow> IsNil sv"
proof (rule absorbValue_loop.raw_induct [where P = "\<lambda>sv u. Kind sv = Ptr \<longrightarrow> IsNil sv"])
  show "absorbValue_loop sv = Some u" by (rule assms)
next
  fix f :: "'a gval \<Rightarrow> unit option" and x y
  assume ih: "\<And>x y. f x = Some y \<Longrightarrow> Kind x = Ptr \<longrightarrow> IsNil x"
    and step: "(if Kind x = Ptr then if IsNil x then Some () else f x else Some ()) = Some y"
  show "Kind x = Ptr \<longrightarrow> IsNil x"
  proof (cases "Kind x = Ptr \<and> \<not> IsNil x")
    case True
    with step have "f x = Some y" by simp
    then show ?thesis by (rule ih)
  next
    case False
    then show ?thesis by blast
  qed
qed

lemma absorbValue_loop_diverges: "absorbValue_loop (VPtr (Some p)) = None"
proof (cases "absorbValue_loop (VPtr (Some p))")
  case (Some u)
  from absorbValue_loop_Some [OF this] show ?thesis by simp
qed simp

lemma absorbValue_loop_eq:
  "absorbValue_loop sv = (if Kind sv = Ptr \<and> \<not> IsNil sv then None else Some ())"
proof (cases sv)
  case (VPtr p)
  then show ?thesis
    by (cases p) (simp_all add: absorbValue_loop_nil absorbValue_loop_diverges)
qed (simp_all add: absorbValue_loop_not_ptr)

lemma convertString_loop_not_ptr: "Kind v \<noteq> Ptr \<Longrightarrow> convertString_loop v = Some None"
  by (subst convertString_loop.simps) simp

lemma convertString_loop_nil: "convertString_loop (VPtr None) = Some (Some NilPointer)"
  by (subst convertString_loop.simps) simp

lemma convertString_loop_Some:
  assumes "convertString_loop v = Some u"
  shows "Kind v = Ptr \<longrightarrow> IsNil v"
proof (rule convertString_loop.raw_induct [where P = "\<lambda>v u. Kind v = Ptr \<longrightarrow> IsNil v"])
  show "convertString_loop v = Some u" by (rule assms)
next
  fix f :: "'a gval \<Rightarrow> error option option" and x y
  assume ih: "\<And>x y. f x = Some y \<Longrightarrow> Kind x = Ptr \<longrightarrow> IsNil x"
    and step: "(if Kind x = Ptr then if IsNil x then Some (Some NilPointer) else f x
                else Some None) = Some y"
  show "Kind x = Ptr \<longrightarrow> IsNil x"
  proof (cases "Kind x = Ptr \<and> \<not> IsNil x")
    case True
    with step have "f x = Some y" by simp
    then show ?thesis by (rule ih)
  next
    case False
    then show ?thesis by blast
  qed
qed

lemma convertString_loop_diverges: "convertString_loop (VPtr (Some p)) = None"
proof (cases "convertString_loop (VPtr (Some p))")
  case (Some u)
  from convertString_loop_Some [OF this] show ?thesis by simp
qed simp

lemma convertString_loop_eq:
  "convertString_loop v =
     (if Kind v = Ptr then (if IsNil v then Some (Some NilPointer) else None) else Some None)"
proof (cases v)
  case (VPtr p)
  then show ?thesis
    by (cases p) (simp_all add: convertString_loop_nil convertString_loop_diverges)
qed (simp_all add: convertString_loop_not_ptr)

lemma absorbValue_append:
  "absorbValue L tv cs (xs @ ys) sc =
     (case absorbValue L tv cs xs sc of
        None \<Rightarrow> None
      | Some (Success, xs') \<Rightarrow>
          (case absorbValue L tv cs ys sc of
             None \<Rightarrow> None
           | Some (r, ys') \<Rightarrow> Some (r, xs' @ ys'))
      | Some (r, xs') \<Rightarrow> Some (r, xs' @ ys))"
  by (induction xs) (simp_all split: option.splits prod.splits result.splits)

lemma absorbValue_after_prefix:
  assumes "absorbValue L tv cs pre sc = Some (Success, pre')"
  shows "absorbValue L tv cs (pre @ sf # post) sc =
     (case absorbField L tv cs sc sf of
        None \<Rightarrow> None
      | Some (Success, sf') \<Rightarrow>
          (case absorbValue L tv cs post sc of
             None \<Rightarrow> None
           | Some (r, post') \<Rightarrow> Some (r, pre' @ sf' # post'))
      | Some (r, sf') \<Rightarrow> Some (r, pre' @ sf' # post))"
  using assms
  by (simp add: absorbValue_append split: option.splits prod.splits result.splits)

lemma absorbValue_length:
  "absorbValue L tv cs fs sc = Some (r, fs') \<Longrightarrow> length fs' = length fs"
  by (induction fs arbitrary: r fs')
    (auto split: option.splits prod.splits result.splits)

lemma absorbValue_nth:
  "absorbValue L tv cs fs sc = Some (r, fs') \<Longrightarrow> i < length fs \<Longrightarrow>
     fs' ! i = fs ! i \<or> (\<exists>r'. absorbField L tv cs sc (fs ! i) = Some (r', fs' ! i))"
proof (induction fs arbitrary: r fs' i)
  case Nil
  then show ?case by simp
next
  case (Cons sf fs)
  show ?case
  proof (cases i)
    case 0
    with Cons.prems show ?thesis
      by (auto split: option.splits prod.splits result.splits)
  next
    case (Suc j)
    with Cons.prems Cons.IH [of _ _ j] show ?thesis
      by (auto split: option.splits prod.splits result.splits)
  qed
qed

lemma absorbValue_Success_nth:
  "absorbValue L tv cs fs sc = Some (Success, fs') \<Longrightarrow> i < length fs \<Longrightarrow>
     absorbField L tv cs sc (fs ! i) = Some (Success, fs' ! i)"
proof (induction fs arbitrary: fs' i)
  case Nil
  then show ?case by simp
next
  case (Cons sf fs)
  show ?case
  proof (cases i)
    case 0
    with Cons.prems show ?thesis
      by (auto split: option.splits prod.splits result.splits)
  next
    case (Suc j)
    with Cons.prems Cons.IH [of _ j] show ?thesis
      by (auto split: option.splits prod.splits result.splits)
  qed
qed

lemma absorbField_unfold:
  "absorbField L tv cs [] sf =
     (if \<not> considered sf then Some (Success, sf)
      else if Contains (tagOpts sf) ''seen'' then
        (if Kind (Val sf) \<noteq> Bool \<or> \<not> cs then Some (Success, sf)
         else if tv (lookupName sf) \<noteq> None then Some (Success, sf\<lparr>Val := VBool True\<rparr>)
         else Some (Success, sf))
      else
        (case Impl sf of
           DecodeValues m \<Rightarrow>
             (case tv (lookupName sf) of
                None \<Rightarrow> Some (Success, sf)
              | Some [] \<Rightarrow> Some (Success, sf)
              | Some (toxicValue # rest) \<Rightarrow>
                  (case m toxicValue (Val sf) of
                     (Some err, sv') \<Rightarrow> Some (Failure (DecoderError err), sf\<lparr>Val := sv'\<rparr>)
                   | (None, sv') \<Rightarrow> Some (Success, sf\<lparr>Val := sv'\<rparr>)))
         | NilDecoder \<Rightarrow>
             (case tv (lookupName sf) of
                None \<Rightarrow> Some (Success, sf)
              | Some [] \<Rightarrow> Some (Success, sf)
              | Some (toxicValue # rest) \<Rightarrow> Some (Panic, sf))
         | NotDecoder \<Rightarrow>
             if Kind (Val sf) = Other Slice \<or> Kind (Val sf) = Other Array then Some (Success, sf)
             else
               (case tv (lookupName sf) of
                  None \<Rightarrow> Some (Success, sf)
                | Some [] \<Rightarrow> Some (Success, sf)
                | Some (toxicValue # rest) \<Rightarrow>
                    (case absorbValue_loop (Val sf) of
                       None \<Rightarrow> None
                     | Some u \<Rightarrow>
                         (case convertString L toxicValue cs (Val sf) (tagOpts sf) of
                            None \<Rightarrow> None
                          | Some (r, sv') \<Rightarrow> Some (r, sf\<lparr>Val := sv'\<rparr>))))))"
  unfolding absorbField_def Let_def case_prod_beta
  by (auto simp: considered_def tagOpts_def lookupName_def
      split: decoderImpl.splits option.splits list.splits prod.splits)

lemma absorbField_take1:
  "absorbField L (\<lambda>k. map_option (take 1) (tv k)) cs sc sf = absorbField L tv cs sc sf"
  unfolding absorbField_def Let_def case_prod_beta
  by (auto split: decoderImpl.splits option.splits list.splits prod.splits)

lemma absorbField_primitive:
  assumes "primitive sf" and "tv (lookupName sf) = Some (s # rest)"
  shows "absorbField L tv cs [] sf =
     (case absorbValue_loop (Val sf) of
        None \<Rightarrow> None
      | Some u \<Rightarrow>
          (case convertString L s cs (Val sf) (tagOpts sf) of
             None \<Rightarrow> None
           | Some (r, v') \<Rightarrow> Some (r, sf\<lparr>Val := v'\<rparr>)))"
  using assms by (simp add: absorbField_unfold primitive_def)

lemma convertString_nil:
  "convertString L s cs (VPtr None) opts = Some (Failure NilPointer, VPtr None)"
  by (simp add: convertString_def convertString_loop_nil)

lemma convertString_not_ptr:
  "Kind v \<noteq> Ptr \<Longrightarrow> convertString L s cs v opts =
     Some
       (if \<not> cs then (Success, v)
        else
          (case Kind v of
             Signed k \<Rightarrow>
               (case ParseInt s of
                  Inl err \<Rightarrow> (Failure (ParseError err), v)
                | Inr n \<Rightarrow>
                    if OverflowInt L k n
                    then (Failure (Incompatible s (Signed k)), v)
                    else (Success, SetInt L k n))
           | Unsigned k \<Rightarrow>
               (case ParseUint s of
                  Inl err \<Rightarrow> (Failure (ParseError err), v)
                | Inr n \<Rightarrow>
                    if OverflowUint L k n
                    then (Failure (Incompatible s (Unsigned k)), v)
                    else (Success, SetUint L k n))
           | Float k \<Rightarrow>
               (case ParseFloat L s of
                  Inl err \<Rightarrow> (Failure (ParseError err), v)
                | Inr n \<Rightarrow>
                    if OverflowFloat L k n
                    then (Failure (Incompatible s (Float k)), v)
                    else (Success, SetFloat L k n))
           | Bool \<Rightarrow>
               (case ParseBool s of
                  Inl err \<Rightarrow> (Failure (ParseError err), v)
                | Inr n \<Rightarrow> (Success, VBool n))
           | String \<Rightarrow> (Success, VString s)
           | kind \<Rightarrow> (Failure (Unsupported kind), v)))"
  by (simp add: convertString_def convertString_loop_not_ptr)

lemma Decode_pointer_to_struct:
  "Decode L tv (Some (PtrTo (StructVal fs))) =
     (case absorbValue L tv True fs [] of
        None \<Rightarrow> None
      | Some (r, fs') \<Rightarrow> Some (r, Some (PtrTo (StructVal fs'))))"
  by (simp split: option.splits prod.splits)

lemma Decode_struct_by_value:
  "Decode L tv (Some (StructVal fs)) =
     (case absorbValue L tv False fs [] of
        None \<Rightarrow> None
      | Some (r, fs') \<Rightarrow> Some (r, Some (StructVal fs')))"
  by (simp split: option.splits prod.splits)

text \<open>
  Lemmas on the input, on the errors, on a record passed by value, on the \<open>seen\<close>
  option and on the integer kinds.
\<close>

lemma sameFirst_take1: "sameFirst a b \<Longrightarrow> map_option (take 1) a = map_option (take 1) b"
  by (induction a b rule: sameFirst.induct) simp_all

lemma absorbField_sameFirst:
  assumes "\<forall>k. sameFirst (tv1 k) (tv2 k)"
  shows "absorbField L tv1 cs sc sf = absorbField L tv2 cs sc sf"
proof -
  have "(\<lambda>k. map_option (take 1) (tv1 k)) = (\<lambda>k. map_option (take 1) (tv2 k))"
  proof (rule ext)
    fix k from assms have "sameFirst (tv1 k) (tv2 k)" by blast
    then show "map_option (take 1) (tv1 k) = map_option (take 1) (tv2 k)"
      by (rule sameFirst_take1)
  qed
  then have "absorbField L (\<lambda>k. map_option (take 1) (tv1 k)) cs sc sf
    = absorbField L (\<lambda>k. map_option (take 1) (tv2 k)) cs sc sf"
    by simp
  then show ?thesis by (simp only: absorbField_take1)
qed

lemma absorbValue_sameFirst:
  assumes "\<forall>k. sameFirst (tv1 k) (tv2 k)"
  shows "absorbValue L tv1 cs fs sc = absorbValue L tv2 cs fs sc"
  by (induction fs)
    (simp_all add: absorbField_sameFirst [OF assms]
      split: option.splits prod.splits result.splits)

lemma Decode_loop_sameFirst:
  assumes "\<forall>k. sameFirst (tv1 k) (tv2 k)"
  shows "Decode_loop L tv1 cs val = Decode_loop L tv2 cs val"
  by (induction val arbitrary: cs) (simp_all add: absorbValue_sameFirst [OF assms])

lemma convertString_not_ExpectsStruct:
  "convertString L s cs v opts = Some (r, v') \<Longrightarrow> r \<noteq> Failure (ExpectsStruct k)"
  unfolding convertString_def convertString_loop_eq
  by (auto split: option.splits if_splits kind.splits sum.splits)

lemma absorbField_not_ExpectsStruct:
  "absorbField L tv cs [] sf = Some (r, sf') \<Longrightarrow> r \<noteq> Failure (ExpectsStruct k)"
  unfolding absorbField_unfold
  by (auto split: if_splits decoderImpl.splits option.splits list.splits prod.splits
      dest: convertString_not_ExpectsStruct)

lemma absorbValue_not_ExpectsStruct:
  "absorbValue L tv cs fs [] = Some (r, fs') \<Longrightarrow> r \<noteq> Failure (ExpectsStruct k)"
proof (induction fs arbitrary: r fs')
  case Nil
  then show ?case by simp
next
  case (Cons sf fs)
  then show ?case
    by (auto split: option.splits prod.splits result.splits
        dest: absorbField_not_ExpectsStruct)
qed

lemma Decode_loop_indirect_None:
  "indirect val = None \<Longrightarrow> Decode_loop L tv cs val = Some (Success, val)"
  by (induction val arbitrary: cs) simp_all

lemma Decode_loop_indirect_OtherVal:
  "indirect val = Some (OtherVal k) \<Longrightarrow>
     Decode_loop L tv cs val = Some (Failure (ExpectsStruct k), val)"
  by (induction val arbitrary: cs) simp_all

lemma Decode_loop_indirect_StructVal:
  "indirect val = Some (StructVal fs) \<Longrightarrow> Decode_loop L tv cs val = Some (r, val') \<Longrightarrow>
     r \<noteq> Failure (ExpectsStruct k)"
  by (induction val arbitrary: cs val')
    (auto split: option.splits prod.splits dest: absorbValue_not_ExpectsStruct)

lemma indirect_Some_cases:
  "indirect val = Some x \<Longrightarrow> (\<exists>fs. x = StructVal fs) \<or> (\<exists>k. x = OtherVal k)"
  by (induction val) auto

lemma tagOpts_not_dash: "Contains (tagOpts sf) x \<Longrightarrow> Tag sf \<noteq> ''-''"
  by (auto simp: tagOpts_def parseTag_def Contains_def)

lemma absorbField_no_value:
  assumes "tv (lookupName sf) = None
     \<or> (tv (lookupName sf) = Some [] \<and> \<not> Contains (tagOpts sf) ''seen'')"
  shows "absorbField L tv cs [] sf = Some (Success, sf)"
  using assms unfolding absorbField_unfold
  by (auto split: decoderImpl.splits)

lemma convertString_not_settable:
  "convertString L s False v opts = Some (r, v') \<Longrightarrow>
     v' = v \<and> (r = Success \<or> r = Failure NilPointer)"
  unfolding convertString_def convertString_loop_eq
  by (auto split: if_splits)

lemma absorbField_not_settable:
  assumes "absorbField L tv False [] sf = Some (r, sf')"
  shows "r = Success \<or> r = Failure NilPointer \<or> r = Panic \<or> (\<exists>e. r = Failure (DecoderError e))"
  using assms unfolding absorbField_unfold
  by (auto split: if_splits decoderImpl.splits option.splits list.splits prod.splits
      dest: convertString_not_settable)

lemma absorbValue_not_settable:
  "absorbValue L tv False fs [] = Some (r, fs') \<Longrightarrow>
     r = Success \<or> r = Failure NilPointer \<or> r = Panic \<or> (\<exists>e. r = Failure (DecoderError e))"
proof (induction fs arbitrary: r fs')
  case Nil
  then show ?case by simp
next
  case (Cons sf fs)
  show ?case
  proof (cases "absorbField L tv False [] sf")
    case None
    with Cons.prems show ?thesis by simp
  next
    case (Some p)
    obtain r0 sf' where p: "p = (r0, sf')" by (cases p)
    show ?thesis
    proof (cases "r0 = Success")
      case True
      with Some p Cons.prems Cons.IH show ?thesis
        by (auto split: option.splits prod.splits)
    next
      case False
      with Some p Cons.prems have "r = r0"
        by (cases r0) auto
      with absorbField_not_settable [of L tv sf r0 sf'] Some p show ?thesis by simp
    qed
  qed
qed

lemma absorbField_by_value_plain:
  assumes "considered sf \<and> \<not> Contains (tagOpts sf) ''seen''
      \<and> tv (lookupName sf) \<noteq> None \<and> tv (lookupName sf) \<noteq> Some []
     \<longrightarrow> Impl sf = NotDecoder \<and> Kind (Val sf) \<noteq> Ptr"
  shows "absorbField L tv False [] sf = Some (Success, sf)"
proof (cases "considered sf \<and> \<not> Contains (tagOpts sf) ''seen''
      \<and> tv (lookupName sf) \<noteq> None \<and> tv (lookupName sf) \<noteq> Some []")
  case True
  with assms have "Impl sf = NotDecoder" and "Kind (Val sf) \<noteq> Ptr" by blast+
  with True show ?thesis
    unfolding absorbField_unfold
    by (auto simp: absorbValue_loop_eq convertString_def convertString_loop_eq
        split: option.splits list.splits)
next
  case False
  then show ?thesis
    unfolding absorbField_unfold
    by (auto split: decoderImpl.splits option.splits list.splits)
qed

lemma absorbValue_by_value_plain:
  assumes "\<forall>sf \<in> set fs. considered sf \<and> \<not> Contains (tagOpts sf) ''seen''
      \<and> tv (lookupName sf) \<noteq> None \<and> tv (lookupName sf) \<noteq> Some []
     \<longrightarrow> Impl sf = NotDecoder \<and> Kind (Val sf) \<noteq> Ptr"
  shows "absorbValue L tv False fs [] = Some (Success, fs)"
  using assms
proof (induction fs)
  case Nil
  then show ?case by simp
next
  case (Cons sf fs)
  from Cons.prems have "absorbField L tv False [] sf = Some (Success, sf)"
    by (intro absorbField_by_value_plain) simp
  moreover from Cons have "absorbValue L tv False fs [] = Some (Success, fs)"
    by simp
  ultimately show ?case by simp
qed

lemma absorbField_seen_bool:
  assumes "PkgPath sf = []" and "Contains (tagOpts sf) ''seen''" and "Val sf = VBool b"
  shows "absorbField L tv True [] sf
     = Some (Success, sf\<lparr>Val := VBool (b \<or> tv (lookupName sf) \<noteq> None)\<rparr>)"
proof -
  from assms have "considered sf"
    by (auto simp: considered_def dest: tagOpts_not_dash)
  with assms show ?thesis
    unfolding absorbField_unfold by (cases b) auto
qed

lemma absorbField_seen_noop:
  assumes "Contains (tagOpts sf) ''seen''"
    and "Kind (Val sf) \<noteq> Bool \<or> \<not> cs \<or> PkgPath sf \<noteq> []"
  shows "absorbField L tv cs [] sf = Some (Success, sf)"
  using assms unfolding absorbField_unfold by (auto simp: considered_def)

lemma absorbField_NilDecoder:
  assumes "considered sf" and "\<not> Contains (tagOpts sf) ''seen''" and "Impl sf = NilDecoder"
    and "tv (lookupName sf) = Some (x # rest)"
  shows "absorbField L tv cs [] sf = Some (Panic, sf)"
  using assms unfolding absorbField_unfold by simp

lemma OverflowInt_iff: "OverflowInt L k n \<longleftrightarrow> \<not> fitsInt (intBits L k) n"
  unfolding OverflowInt_def fitsInt_def
  using signed_take_bit_int_eq_self_iff [of "intBits L k - 1" n] by auto

lemma SetInt_fits: "fitsInt (intBits L k) n \<Longrightarrow> SetInt L k n = VInt k n"
  unfolding SetInt_def fitsInt_def
  using signed_take_bit_int_eq_self_iff [of "intBits L k - 1" n] by auto

lemma fitsUint_less: "fitsUint w n \<longleftrightarrow> n < 2 ^ w"
proof -
  have "(0::nat) < 2 ^ w" by simp
  then show ?thesis unfolding fitsUint_def by arith
qed

lemma OverflowUint_iff: "OverflowUint L k n \<longleftrightarrow> \<not> fitsUint (uintBits L k) n"
  unfolding OverflowUint_def fitsUint_less
  using take_bit_nat_eq_self_iff [of "uintBits L k" n] by auto

lemma SetUint_fits: "fitsUint (uintBits L k) n \<Longrightarrow> SetUint L k n = VUint k n"
  unfolding SetUint_def fitsUint_less
  using take_bit_nat_eq_self_iff [of "uintBits L k" n] by auto

lemma errorText_incompatible: "sublist ''incompatible'' (errorText L (Incompatible s k))"
proof -
  have "errorText L (Incompatible s k)
    = (''query:  Query arg value '' @ Quote L s @ '' '') @ ''incompatible''
        @ ('' with field value type '' @ kindString k)"
    by simp
  then show ?thesis by (simp only: sublist_appendI)
qed

lemma errorText_Unsupported:
  "sublist ''Unsupported'' (errorText L (Unsupported k))
   \<and> sublist (kindString k) (errorText L (Unsupported k))"
proof
  have "errorText L (Unsupported k)
    = ''query:  '' @ ''Unsupported'' @ ('' field value type '' @ kindString k)"
    by simp
  then show "sublist ''Unsupported'' (errorText L (Unsupported k))"
    by (simp only: sublist_appendI)
  show "sublist (kindString k) (errorText L (Unsupported k))"
    unfolding errorText.simps by (rule sublist_append_leftI)
qed

lemma absorbField_signed:
  assumes "primitive sf" and "tv (lookupName sf) = Some (s # rest)"
    and "Val sf = VInt k old" and "ParseInt s = Inr n"
  shows "absorbField L tv True [] sf =
     (if fitsInt (intBits L k) n then Some (Success, sf\<lparr>Val := VInt k n\<rparr>)
      else Some (Failure (Incompatible s (Signed k)), sf))"
  using assms
  by (simp add: absorbField_primitive absorbValue_loop_eq convertString_not_ptr
      OverflowInt_iff SetInt_fits)

lemma absorbField_unsigned:
  assumes "primitive sf" and "tv (lookupName sf) = Some (s # rest)"
    and "Val sf = VUint k old" and "ParseUint s = Inr n"
  shows "absorbField L tv True [] sf =
     (if fitsUint (uintBits L k) n then Some (Success, sf\<lparr>Val := VUint k n\<rparr>)
      else Some (Failure (Incompatible s (Unsigned k)), sf))"
  using assms
  by (simp add: absorbField_primitive absorbValue_loop_eq convertString_not_ptr
      OverflowUint_iff SetUint_fits)

text \<open>
  When the walk does not return: exactly at a field on the way of the primitive
  conversion that has a value in the input and holds a pointer that is not nil.
  Without such a field \<open>Decode\<close> returns.
\<close>

lemma convertString_None_iff:
  "convertString L s cs v opts = None \<longleftrightarrow> Kind v = Ptr \<and> \<not> IsNil v"
  unfolding convertString_def convertString_loop_eq by simp

lemma absorbField_None_iff:
  "absorbField L tv cs [] sf = None \<longleftrightarrow>
     primitive sf \<and> tv (lookupName sf) \<noteq> None \<and> tv (lookupName sf) \<noteq> Some []
     \<and> Kind (Val sf) = Ptr \<and> \<not> IsNil (Val sf)"
  unfolding absorbField_unfold primitive_def
  by (auto simp: absorbValue_loop_eq convertString_None_iff
      split: decoderImpl.splits option.splits list.splits prod.splits)

lemma absorbValue_returns:
  assumes "\<forall>sf \<in> set fs.
      \<not> (primitive sf \<and> tv (lookupName sf) \<noteq> None \<and> tv (lookupName sf) \<noteq> Some []
          \<and> Kind (Val sf) = Ptr \<and> \<not> IsNil (Val sf))"
  shows "absorbValue L tv cs fs [] \<noteq> None"
  using assms
proof (induction fs)
  case Nil
  then show ?case by simp
next
  case (Cons sf fs)
  from Cons.prems have "absorbField L tv cs [] sf \<noteq> None"
    unfolding absorbField_None_iff by simp
  moreover from Cons have "absorbValue L tv cs fs [] \<noteq> None" by simp
  ultimately show ?case
    by (auto split: option.splits prod.splits result.splits)
qed

lemma Decode_returns:
  assumes "\<forall>sf \<in> set fs.
      \<not> (primitive sf \<and> tv (lookupName sf) \<noteq> None \<and> tv (lookupName sf) \<noteq> Some []
          \<and> Kind (Val sf) = Ptr \<and> \<not> IsNil (Val sf))"
  shows "Decode L tv (Some (PtrTo (StructVal fs))) \<noteq> None"
  using absorbValue_returns [OF assms, of L True]
  by (auto simp: Decode_pointer_to_struct split: option.splits prod.splits)

text \<open>The facts that evaluate the decoder on a concrete record.\<close>

lemmas eval_simps =
  absorbField_def parseTag_def Contains_def plainField_def convertString_def
  absorbValue_loop_nil absorbValue_loop_not_ptr convertString_loop_nil
  convertString_loop_not_ptr ParseInt_def ParseUint_def ParseBool_def isDigit_def
  maxUint64_def OverflowInt_def OverflowUint_def SetInt_def SetUint_def lib64_def
  primitive_def considered_def tagOpts_def lookupName_def

section \<open>The claims\<close>

subsection \<open>C1: a nil pointer field with a value in the input\<close>

text \<open>
  C1 says that \<open>Decode\<close> leaves a nil pointer field unchanged and returns no error
  when the input has a non-empty sequence for its name. On the record with the
  one field \<open>P\<close>, a nil pointer, and the input \<open>P = ["1"]\<close>, the field is unchanged
  but \<open>Decode\<close> returns the error of \<open>convertString\<close> for a nil pointer.
\<close>

theorem nil_pointer_field_counterexample:
  "Decode lib64 [''P'' \<mapsto> [''1'']] (Some (PtrTo (StructVal [plainField ''P'' (VPtr None)])))
     = Some (Failure NilPointer, Some (PtrTo (StructVal [plainField ''P'' (VPtr None)])))"
  by (simp add: eval_simps)

text \<open>
  C1 as amended: for every record with a nil pointer field that goes the way of
  the primitive conversion (exported, tag not \<open>-\<close>, no \<open>seen\<close> option, no
  \<open>Decoder\<close>) and whose name has a non-empty sequence in the input, once the fields
  before it are decoded without error \<open>Decode\<close> returns the error "Attempt to
  Decode() into nil pointer", with that field and the fields after it unchanged.
\<close>

theorem nil_pointer_field_error:
  assumes "absorbValue L tv True pre [] = Some (Success, pre')"
    and "primitive sf" and "Val sf = VPtr None"
    and "tv (lookupName sf) = Some (s # rest)"
  shows "Decode L tv (Some (PtrTo (StructVal (pre @ sf # post)))) =
           Some (Failure NilPointer, Some (PtrTo (StructVal (pre' @ sf # post))))"
proof -
  have "absorbField L tv True [] sf = Some (Failure NilPointer, sf)"
    using assms(2-4)
    by (simp add: absorbField_primitive absorbValue_loop_nil convertString_nil)
  then show ?thesis
    using assms(1) by (simp add: Decode_pointer_to_struct absorbValue_after_prefix)
qed

theorem nil_pointer_field_error_witness:
  "absorbValue lib64 [''A'' \<mapsto> [''x''], ''P'' \<mapsto> [''1'', ''2'']] True
       [plainField ''A'' (VString [])] []
     = Some (Success, [plainField ''A'' (VString ''x'')])
   \<and> primitive (plainField ''P'' (VPtr None :: unit gval))
   \<and> Val (plainField ''P'' (VPtr None :: unit gval)) = VPtr None
   \<and> [''A'' \<mapsto> [''x''], ''P'' \<mapsto> [''1'', ''2'']] (lookupName (plainField ''P'' (VPtr None :: unit gval)))
       = Some (''1'' # [''2''])
   \<and> Decode lib64 [''A'' \<mapsto> [''x''], ''P'' \<mapsto> [''1'', ''2'']]
        (Some (PtrTo (StructVal
           ([plainField ''A'' (VString [])] @ plainField ''P'' (VPtr None)
              # [plainField ''B'' (VInt Int8 0)]))))
     = Some (Failure NilPointer,
         Some (PtrTo (StructVal
           ([plainField ''A'' (VString ''x'')] @ plainField ''P'' (VPtr None)
              # [plainField ''B'' (VInt Int8 0)]))))"
proof -
  let ?tv = "[''A'' \<mapsto> [''x''], ''P'' \<mapsto> [''1'', ''2'']]"
  let ?P = "plainField ''P'' (VPtr None :: unit gval)"
  have h1: "absorbValue lib64 ?tv True [plainField ''A'' (VString [])] []
     = Some (Success, [plainField ''A'' (VString ''x'')])"
    by (simp add: eval_simps)
  have h2: "primitive ?P" by (simp add: eval_simps)
  have h3: "Val ?P = VPtr None" by (simp add: eval_simps)
  have h4: "?tv (lookupName ?P) = Some (''1'' # [''2''])" by (simp add: eval_simps)
  from nil_pointer_field_error [OF h1 h2 h3 h4] h1 h2 h3 h4 show ?thesis by blast
qed

subsection \<open>C2: termination\<close>

text \<open>
  C2 says that \<open>Decode\<close> returns on every input, records with pointer fields that
  are not nil included. On the record with the one field \<open>P\<close>, a pointer to an
  \<open>int\<close>, and the input \<open>P = ["1"]\<close>, the call does not return: the loop of
  \<open>absorbValue\<close> over the pointer never leaves.
\<close>

theorem nonnil_pointer_field_diverges:
  "Decode L [''P'' \<mapsto> [''1'']]
     (Some (PtrTo (StructVal [plainField ''P'' (VPtr (Some (VInt GoInt 0)))]))) = None"
  by (simp add: absorbField_def parseTag_def Contains_def plainField_def
      absorbValue_loop_diverges)

subsection \<open>C3: a field whose type implements \<open>Decoder\<close>\<close>

text \<open>
  C3 says that \<open>Decode\<close> passes the name under which the field is looked up to the
  field's \<open>DecodeValues\<close>. On the record with the one field \<open>A\<close>, whose method stores
  the string it is given, and the input \<open>A = ["x"]\<close>, the field holds \<open>x\<close>
  afterwards, the first value, and not the name \<open>A\<close>.
\<close>

theorem decoder_field_counterexample:
  "Decode lib64 [''A'' \<mapsto> [''x'']] (Some (PtrTo (StructVal [decoderField ''A'' (VString [])])))
     = Some (Success, Some (PtrTo (StructVal [decoderField ''A'' (VString ''x'')])))
   \<and> lookupName (decoderField ''A'' (VString [] :: unit gval)) = ''A''
   \<and> Decode lib64 [''A'' \<mapsto> [''x'']] (Some (PtrTo (StructVal [decoderField ''A'' (VString [])])))
     \<noteq> Some (Success, Some (PtrTo (StructVal [decoderField ''A'' (VString ''A'')])))"
  by (simp add: eval_simps decoderField_def storeKey_def)

text \<open>
  C3 (as amended): for every field that \<open>absorbValue\<close> considers (exported, tag not
  \<open>-\<close>, not an embedded struct without a name in its tag), that has no \<open>seen\<close>
  option, and whose type implements \<open>Decoder\<close> with a method \<open>m\<close> that can be called
  on the value it holds (so: not a nil interface, and not a nil pointer whose
  method has a value receiver), once the fields before it are decoded without
  error: when the input has a non-empty sequence for the field's name, \<open>Decode\<close>
  calls the method with the first value of that sequence (not with the name)
  and the field's value; an error of the method ends the call and is returned;
  without an error the field holds what the method left there, with no
  primitive conversion, and the decoding goes on with the next field. When the
  name is absent or its sequence is empty the field is passed over.
\<close>

theorem decoder_field:
  assumes "absorbValue L toxicValues True pre [] = Some (Success, pre')"
    and "considered sf" and "\<not> Contains (tagOpts sf) ''seen''"
    and "Impl sf = DecodeValues m"
  shows "Decode L toxicValues (Some (PtrTo (StructVal (pre @ sf # post)))) =
     (case toxicValues (lookupName sf) of
        Some (toxicValue # rest) \<Rightarrow>
          (case m toxicValue (Val sf) of
             (Some err, sv') \<Rightarrow>
               Some (Failure (DecoderError err),
                 Some (PtrTo (StructVal (pre' @ sf\<lparr>Val := sv'\<rparr> # post))))
           | (None, sv') \<Rightarrow>
               (case absorbValue L toxicValues True post [] of
                  None \<Rightarrow> None
                | Some (r, post') \<Rightarrow>
                    Some (r, Some (PtrTo (StructVal (pre' @ sf\<lparr>Val := sv'\<rparr> # post'))))))
      | _ \<Rightarrow>
          (case absorbValue L toxicValues True post [] of
             None \<Rightarrow> None
           | Some (r, post') \<Rightarrow> Some (r, Some (PtrTo (StructVal (pre' @ sf # post'))))))"
proof -
  have "absorbField L toxicValues True [] sf =
     (case toxicValues (lookupName sf) of
        Some (toxicValue # rest) \<Rightarrow>
          (case m toxicValue (Val sf) of
             (Some err, sv') \<Rightarrow> Some (Failure (DecoderError err), sf\<lparr>Val := sv'\<rparr>)
           | (None, sv') \<Rightarrow> Some (Success, sf\<lparr>Val := sv'\<rparr>))
      | _ \<Rightarrow> Some (Success, sf))"
    using assms(2-4) unfolding absorbField_unfold
    by (simp split: option.splits list.splits)
  then show ?thesis
    by (simp add: Decode_pointer_to_struct absorbValue_after_prefix [OF assms(1)]
        split: option.splits list.splits prod.splits)
qed

theorem decoder_field_witness:
  "absorbValue lib64 [''A'' \<mapsto> [''x'', ''y''], ''B'' \<mapsto> [''7'']] True
       [plainField ''B'' (VInt Int8 0)] []
     = Some (Success, [plainField ''B'' (VInt Int8 7)])
   \<and> considered (decoderField ''A'' (VString [] :: unit gval))
   \<and> \<not> Contains (tagOpts (decoderField ''A'' (VString [] :: unit gval))) ''seen''
   \<and> Impl (decoderField ''A'' (VString [] :: unit gval)) = DecodeValues storeKey
   \<and> Decode lib64 [''A'' \<mapsto> [''x'', ''y''], ''B'' \<mapsto> [''7'']]
        (Some (PtrTo (StructVal
           ([plainField ''B'' (VInt Int8 0)] @ decoderField ''A'' (VString []) # []))))
     = Some (Success,
         Some (PtrTo (StructVal
           [plainField ''B'' (VInt Int8 7), decoderField ''A'' (VString ''x'')])))"
proof -
  let ?tv = "[''A'' \<mapsto> [''x'', ''y''], ''B'' \<mapsto> [''7'']]"
  let ?A = "decoderField ''A'' (VString [] :: unit gval)"
  have h1: "absorbValue lib64 ?tv True [plainField ''B'' (VInt Int8 0)] []
     = Some (Success, [plainField ''B'' (VInt Int8 7)])"
    by (simp add: eval_simps)
  have h2: "considered ?A" by (simp add: eval_simps decoderField_def)
  have h3: "\<not> Contains (tagOpts ?A) ''seen''" by (simp add: eval_simps decoderField_def)
  have h4: "Impl ?A = DecodeValues storeKey" by (simp add: decoderField_def)
  have "Decode lib64 ?tv
        (Some (PtrTo (StructVal ([plainField ''B'' (VInt Int8 0)] @ ?A # []))))
     = Some (Success,
         Some (PtrTo (StructVal
           [plainField ''B'' (VInt Int8 7), decoderField ''A'' (VString ''x'')])))"
    using decoder_field [OF h1 h2 h3 h4, of "[]"]
    by (simp add: lookupName_def parseTag_def decoderField_def storeKey_def)
  with h1 h2 h3 h4 show ?thesis by blast
qed

subsection \<open>C4: the \<open>seen\<close> option\<close>

text \<open>
  C4: for the field at index \<open>i\<close> of a record, carrying the \<open>seen\<close> option. When it
  is exported and a boolean holding \<open>b\<close>, and the record is reached through a
  pointer: the field's step gives no error and leaves in the field \<open>b\<close> or whether
  its name is a key of the input, whatever the values under that key (nothing
  is parsed); so, once the fields before it are decoded without error, \<open>Decode\<close>
  goes on with the fields after it, and after a successful \<open>Decode\<close> the field
  holds that value. When it is not a boolean, or cannot be set (the record is
  passed by value, or the field is not exported), the field's step changes
  nothing and gives no error, and the field is unchanged whenever \<open>Decode\<close>
  returns.
\<close>

theorem seen_option:
  assumes "i < length fs" and "Contains (tagOpts (fs ! i)) ''seen''"
  shows "(\<forall>b. PkgPath (fs ! i) = [] \<and> Val (fs ! i) = VBool b \<longrightarrow>
          absorbField L toxicValues True [] (fs ! i)
            = Some (Success,
                (fs ! i)\<lparr>Val := VBool (b \<or> toxicValues (lookupName (fs ! i)) \<noteq> None)\<rparr>)
          \<and> (\<forall>pre'. absorbValue L toxicValues True (take i fs) [] = Some (Success, pre') \<longrightarrow>
                Decode L toxicValues (Some (PtrTo (StructVal fs))) =
                  (case absorbValue L toxicValues True (drop (Suc i) fs) [] of
                     None \<Rightarrow> None
                   | Some (r, post') \<Rightarrow>
                       Some (r, Some (PtrTo (StructVal
                         (pre'
                          @ (fs ! i)\<lparr>Val :=
                               VBool (b \<or> toxicValues (lookupName (fs ! i)) \<noteq> None)\<rparr>
                          # post')))))))
     \<and> (\<forall>b v'. PkgPath (fs ! i) = [] \<and> Val (fs ! i) = VBool b
            \<and> Decode L toxicValues (Some (PtrTo (StructVal fs))) = Some (Success, v') \<longrightarrow>
          (\<exists>fs'. v' = Some (PtrTo (StructVal fs')) \<and> length fs' = length fs
             \<and> fs' ! i = (fs ! i)\<lparr>Val := VBool (b \<or> toxicValues (lookupName (fs ! i)) \<noteq> None)\<rparr>))
     \<and> (\<forall>canSet. Kind (Val (fs ! i)) \<noteq> Bool \<or> \<not> canSet \<or> PkgPath (fs ! i) \<noteq> [] \<longrightarrow>
          absorbField L toxicValues canSet [] (fs ! i) = Some (Success, fs ! i))
     \<and> (\<forall>r v'. (Kind (Val (fs ! i)) \<noteq> Bool \<or> PkgPath (fs ! i) \<noteq> [])
            \<and> Decode L toxicValues (Some (PtrTo (StructVal fs))) = Some (r, v') \<longrightarrow>
          (\<exists>fs'. v' = Some (PtrTo (StructVal fs')) \<and> length fs' = length fs
             \<and> fs' ! i = fs ! i))
     \<and> (\<forall>r v'. Decode L toxicValues (Some (StructVal fs)) = Some (r, v') \<longrightarrow>
          (\<exists>fs'. v' = Some (StructVal fs') \<and> length fs' = length fs \<and> fs' ! i = fs ! i))"
proof (intro conjI allI impI)
  fix b
  assume a: "PkgPath (fs ! i) = [] \<and> Val (fs ! i) = VBool b"
  then show step: "absorbField L toxicValues True [] (fs ! i)
      = Some (Success,
          (fs ! i)\<lparr>Val := VBool (b \<or> toxicValues (lookupName (fs ! i)) \<noteq> None)\<rparr>)"
    using assms(2) by (intro absorbField_seen_bool) simp_all
  fix pre'
  assume pre: "absorbValue L toxicValues True (take i fs) [] = Some (Success, pre')"
  have fs: "fs = take i fs @ fs ! i # drop (Suc i) fs"
    using assms(1) by (rule id_take_nth_drop)
  have "absorbValue L toxicValues True (take i fs @ fs ! i # drop (Suc i) fs) [] =
      (case absorbValue L toxicValues True (drop (Suc i) fs) [] of
         None \<Rightarrow> None
       | Some (r, post') \<Rightarrow>
           Some (r, pre'
             @ (fs ! i)\<lparr>Val := VBool (b \<or> toxicValues (lookupName (fs ! i)) \<noteq> None)\<rparr>
             # post'))"
    by (simp only: absorbValue_after_prefix [OF pre] step option.case prod.case
        result.case)
  with fs have "absorbValue L toxicValues True fs [] =
      (case absorbValue L toxicValues True (drop (Suc i) fs) [] of
         None \<Rightarrow> None
       | Some (r, post') \<Rightarrow>
           Some (r, pre'
             @ (fs ! i)\<lparr>Val := VBool (b \<or> toxicValues (lookupName (fs ! i)) \<noteq> None)\<rparr>
             # post'))"
    by simp
  then show "Decode L toxicValues (Some (PtrTo (StructVal fs))) =
      (case absorbValue L toxicValues True (drop (Suc i) fs) [] of
         None \<Rightarrow> None
       | Some (r, post') \<Rightarrow>
           Some (r, Some (PtrTo (StructVal
             (pre'
              @ (fs ! i)\<lparr>Val :=
                   VBool (b \<or> toxicValues (lookupName (fs ! i)) \<noteq> None)\<rparr>
              # post')))))"
    by (simp add: Decode_pointer_to_struct split: option.splits prod.splits)
next
  fix b v'
  assume a: "PkgPath (fs ! i) = [] \<and> Val (fs ! i) = VBool b
     \<and> Decode L toxicValues (Some (PtrTo (StructVal fs))) = Some (Success, v')"
  then obtain fs' where fs': "absorbValue L toxicValues True fs [] = Some (Success, fs')"
    and v': "v' = Some (PtrTo (StructVal fs'))"
    by (auto simp: Decode_pointer_to_struct split: option.splits prod.splits)
  from absorbValue_Success_nth [OF fs' assms(1)] absorbField_seen_bool [OF _ assms(2)] a
  have "fs' ! i = (fs ! i)\<lparr>Val := VBool (b \<or> toxicValues (lookupName (fs ! i)) \<noteq> None)\<rparr>"
    by simp
  with v' absorbValue_length [OF fs']
  show "\<exists>fs'. v' = Some (PtrTo (StructVal fs')) \<and> length fs' = length fs
      \<and> fs' ! i = (fs ! i)\<lparr>Val := VBool (b \<or> toxicValues (lookupName (fs ! i)) \<noteq> None)\<rparr>"
    by simp
next
  fix canSet
  assume "Kind (Val (fs ! i)) \<noteq> Bool \<or> \<not> canSet \<or> PkgPath (fs ! i) \<noteq> []"
  with assms(2) show "absorbField L toxicValues canSet [] (fs ! i) = Some (Success, fs ! i)"
    by (rule absorbField_seen_noop)
next
  fix r v'
  assume a: "(Kind (Val (fs ! i)) \<noteq> Bool \<or> PkgPath (fs ! i) \<noteq> [])
     \<and> Decode L toxicValues (Some (PtrTo (StructVal fs))) = Some (r, v')"
  then obtain fs' where fs': "absorbValue L toxicValues True fs [] = Some (r, fs')"
    and v': "v' = Some (PtrTo (StructVal fs'))"
    by (auto simp: Decode_pointer_to_struct split: option.splits prod.splits)
  from a assms(2) have "absorbField L toxicValues True [] (fs ! i) = Some (Success, fs ! i)"
    by (intro absorbField_seen_noop) auto
  with absorbValue_nth [OF fs' assms(1)] have "fs' ! i = fs ! i" by auto
  with v' absorbValue_length [OF fs']
  show "\<exists>fs'. v' = Some (PtrTo (StructVal fs')) \<and> length fs' = length fs \<and> fs' ! i = fs ! i"
    by simp
next
  fix r v'
  assume "Decode L toxicValues (Some (StructVal fs)) = Some (r, v')"
  then obtain fs' where fs': "absorbValue L toxicValues False fs [] = Some (r, fs')"
    and v': "v' = Some (StructVal fs')"
    by (auto simp: Decode_struct_by_value split: option.splits prod.splits)
  from assms(2) have "absorbField L toxicValues False [] (fs ! i) = Some (Success, fs ! i)"
    by (intro absorbField_seen_noop) simp_all
  with absorbValue_nth [OF fs' assms(1)] have "fs' ! i = fs ! i" by auto
  with v' absorbValue_length [OF fs']
  show "\<exists>fs'. v' = Some (StructVal fs') \<and> length fs' = length fs \<and> fs' ! i = fs ! i"
    by simp
qed

theorem seen_option_witness:
  "(1::nat) < length [taggedField ''D'' ''scale'' (VString [] :: unit gval),
                      taggedField ''E'' ''scale,seen'' (VBool False)]
   \<and> Contains (tagOpts ([taggedField ''D'' ''scale'' (VString [] :: unit gval),
                      taggedField ''E'' ''scale,seen'' (VBool False)] ! 1)) ''seen''
   \<and> PkgPath ([taggedField ''D'' ''scale'' (VString [] :: unit gval),
                      taggedField ''E'' ''scale,seen'' (VBool False)] ! 1) = []
   \<and> Val ([taggedField ''D'' ''scale'' (VString [] :: unit gval),
                      taggedField ''E'' ''scale,seen'' (VBool False)] ! 1) = VBool False
   \<and> absorbValue lib64 [''scale'' \<mapsto> [''notabool'']] True
        (take 1 [taggedField ''D'' ''scale'' (VString [] :: unit gval),
                 taggedField ''E'' ''scale,seen'' (VBool False)]) []
      = Some (Success, [taggedField ''D'' ''scale'' (VString ''notabool'')])
   \<and> absorbField lib64 [''scale'' \<mapsto> [''notabool'']] True []
        ([taggedField ''D'' ''scale'' (VString [] :: unit gval),
          taggedField ''E'' ''scale,seen'' (VBool False)] ! 1)
      = Some (Success, taggedField ''E'' ''scale,seen'' (VBool True))
   \<and> Decode lib64 [''scale'' \<mapsto> [''notabool'']]
        (Some (PtrTo (StructVal [taggedField ''D'' ''scale'' (VString []),
                      taggedField ''E'' ''scale,seen'' (VBool False)])))
      = Some (Success,
          Some (PtrTo (StructVal [taggedField ''D'' ''scale'' (VString ''notabool''),
                      taggedField ''E'' ''scale,seen'' (VBool True)])))"
proof -
  let ?fs = "[taggedField ''D'' ''scale'' (VString [] :: unit gval),
              taggedField ''E'' ''scale,seen'' (VBool False)]"
  let ?tv = "[''scale'' \<mapsto> [''notabool'']]"
  have h1: "(1::nat) < length ?fs" by simp
  have h2: "Contains (tagOpts (?fs ! 1)) ''seen''"
    by (simp add: eval_simps taggedField_def)
  have e: "PkgPath (?fs ! 1) = [] \<and> Val (?fs ! 1) = VBool False"
    by (simp add: taggedField_def)
  have p: "absorbValue lib64 ?tv True (take 1 ?fs) []
      = Some (Success, [taggedField ''D'' ''scale'' (VString ''notabool'')])"
    by (simp add: eval_simps taggedField_def)
  have n: "(?fs ! 1)\<lparr>Val := VBool (False \<or> ?tv (lookupName (?fs ! 1)) \<noteq> None)\<rparr>
      = taggedField ''E'' ''scale,seen'' (VBool True)"
    by (simp add: eval_simps taggedField_def)
  from seen_option [OF h1 h2, of lib64 ?tv]
  have "\<forall>b. PkgPath (?fs ! 1) = [] \<and> Val (?fs ! 1) = VBool b \<longrightarrow>
          absorbField lib64 ?tv True [] (?fs ! 1)
            = Some (Success,
                (?fs ! 1)\<lparr>Val := VBool (b \<or> ?tv (lookupName (?fs ! 1)) \<noteq> None)\<rparr>)
          \<and> (\<forall>pre'. absorbValue lib64 ?tv True (take 1 ?fs) [] = Some (Success, pre') \<longrightarrow>
                Decode lib64 ?tv (Some (PtrTo (StructVal ?fs))) =
                  (case absorbValue lib64 ?tv True (drop (Suc 1) ?fs) [] of
                     None \<Rightarrow> None
                   | Some (r, post') \<Rightarrow>
                       Some (r, Some (PtrTo (StructVal
                         (pre'
                          @ (?fs ! 1)\<lparr>Val :=
                               VBool (b \<or> ?tv (lookupName (?fs ! 1)) \<noteq> None)\<rparr>
                          # post'))))))"
    by (rule conjunct1)
  with e p have s: "absorbField lib64 ?tv True [] (?fs ! 1)
            = Some (Success,
                (?fs ! 1)\<lparr>Val := VBool (False \<or> ?tv (lookupName (?fs ! 1)) \<noteq> None)\<rparr>)"
    and d: "Decode lib64 ?tv (Some (PtrTo (StructVal ?fs))) =
                  (case absorbValue lib64 ?tv True (drop (Suc 1) ?fs) [] of
                     None \<Rightarrow> None
                   | Some (r, post') \<Rightarrow>
                       Some (r, Some (PtrTo (StructVal
                         ([taggedField ''D'' ''scale'' (VString ''notabool'')]
                          @ (?fs ! 1)\<lparr>Val :=
                               VBool (False \<or> ?tv (lookupName (?fs ! 1)) \<noteq> None)\<rparr>
                          # post')))))"
    by blast+
  from s n have s': "absorbField lib64 ?tv True [] (?fs ! 1)
      = Some (Success, taggedField ''E'' ''scale,seen'' (VBool True))"
    by (simp only:)
  from d n have "Decode lib64 ?tv (Some (PtrTo (StructVal ?fs))) =
       (case absorbValue lib64 ?tv True (drop (Suc 1) ?fs) [] of
          None \<Rightarrow> None
        | Some (r, post') \<Rightarrow>
            Some (r, Some (PtrTo (StructVal
              ([taggedField ''D'' ''scale'' (VString ''notabool'')]
               @ taggedField ''E'' ''scale,seen'' (VBool True) # post')))))"
    by (simp only:)
  then have d': "Decode lib64 ?tv (Some (PtrTo (StructVal ?fs)))
      = Some (Success,
          Some (PtrTo (StructVal [taggedField ''D'' ''scale'' (VString ''notabool''),
                      taggedField ''E'' ''scale,seen'' (VBool True)])))"
    by simp
  from h1 h2 e p s' d' show ?thesis by blast
qed

subsection \<open>C5: the width of an integer field\<close>

text \<open>
  C5 says that for every settable integer field a parsed value that overflows
  the field's width makes \<open>Decode\<close> return an error whose text contains
  "incompatible". On the record with the one \<open>int8\<close> field \<open>B\<close>, tagged \<open>B,seen\<close>, and
  the input \<open>B = ["128"]\<close>, the string parses as 128, which does not fit 8 bits,
  and \<open>Decode\<close> returns the nil error with the field unchanged: a field with the
  \<open>seen\<close> option that is not a boolean is passed over.
\<close>

theorem integer_width_counterexample:
  "ParseInt ''128'' = Inr 128
   \<and> \<not> fitsInt (intBits lib64 Int8) 128
   \<and> Decode lib64 [''B'' \<mapsto> [''128'']]
        (Some (PtrTo (StructVal [taggedField ''B'' ''B,seen'' (VInt Int8 0)])))
      = Some (Success, Some (PtrTo (StructVal [taggedField ''B'' ''B,seen'' (VInt Int8 0)])))"
  by (simp add: eval_simps taggedField_def fitsInt_def)

text \<open>
  C5 (as amended): for every field of kind \<open>int\<close>, \<open>int8\<close>, \<open>int16\<close>, \<open>int32\<close>, \<open>int64\<close>,
  \<open>uint\<close>, \<open>uint8\<close>, \<open>uint16\<close>, \<open>uint32\<close> or \<open>uint64\<close> that goes the way of the primitive
  conversion (exported, tag not \<open>-\<close>, no \<open>seen\<close> option, no \<open>Decoder\<close>), reached
  through a pointer to the record, once the fields before it are decoded
  without error and with \<open>s\<close> the first value for its name: if the field is of a
  signed kind and \<open>ParseInt\<close> reads \<open>s\<close> as \<open>n\<close>, then \<open>Decode\<close> returns the error
  \<open>Incompatible\<close>, whose text contains "incompatible", with the field unchanged,
  when \<open>n\<close> does not fit the bits of the kind, and assigns \<open>n\<close> and goes on with
  the next field when it fits (the bounds \<open>- 2^(w-1)\<close> and \<open>2^(w-1) - 1\<close>
  included); the same for an unsigned kind, with \<open>ParseUint\<close> and the bound
  \<open>2^w - 1\<close>.
\<close>

theorem integer_width:
  assumes "absorbValue L toxicValues True pre [] = Some (Success, pre')"
    and "primitive sf" and "toxicValues (lookupName sf) = Some (s # rest)"
  shows
    "(\<forall>k old n. Val sf = VInt k old \<and> ParseInt s = Inr n \<longrightarrow>
        Decode L toxicValues (Some (PtrTo (StructVal (pre @ sf # post)))) =
          (if fitsInt (intBits L k) n then
             (case absorbValue L toxicValues True post [] of
                None \<Rightarrow> None
              | Some (r, post') \<Rightarrow>
                  Some (r, Some (PtrTo (StructVal (pre' @ sf\<lparr>Val := VInt k n\<rparr> # post')))))
           else Some (Failure (Incompatible s (Signed k)),
                  Some (PtrTo (StructVal (pre' @ sf # post)))))
        \<and> sublist ''incompatible'' (errorText L (Incompatible s (Signed k))))
     \<and> (\<forall>k old n. Val sf = VUint k old \<and> ParseUint s = Inr n \<longrightarrow>
        Decode L toxicValues (Some (PtrTo (StructVal (pre @ sf # post)))) =
          (if fitsUint (uintBits L k) n then
             (case absorbValue L toxicValues True post [] of
                None \<Rightarrow> None
              | Some (r, post') \<Rightarrow>
                  Some (r, Some (PtrTo (StructVal (pre' @ sf\<lparr>Val := VUint k n\<rparr> # post')))))
           else Some (Failure (Incompatible s (Unsigned k)),
                  Some (PtrTo (StructVal (pre' @ sf # post)))))
        \<and> sublist ''incompatible'' (errorText L (Incompatible s (Unsigned k))))"
proof (intro conjI allI impI)
  fix k old n
  assume "Val sf = VInt k old \<and> ParseInt s = Inr n"
  then have "absorbField L toxicValues True [] sf =
     (if fitsInt (intBits L k) n then Some (Success, sf\<lparr>Val := VInt k n\<rparr>)
      else Some (Failure (Incompatible s (Signed k)), sf))"
    using assms(2,3) by (intro absorbField_signed) simp_all
  then show "Decode L toxicValues (Some (PtrTo (StructVal (pre @ sf # post)))) =
          (if fitsInt (intBits L k) n then
             (case absorbValue L toxicValues True post [] of
                None \<Rightarrow> None
              | Some (r, post') \<Rightarrow>
                  Some (r, Some (PtrTo (StructVal (pre' @ sf\<lparr>Val := VInt k n\<rparr> # post')))))
           else Some (Failure (Incompatible s (Signed k)),
                  Some (PtrTo (StructVal (pre' @ sf # post)))))"
    by (simp add: Decode_pointer_to_struct absorbValue_after_prefix [OF assms(1)]
        split: option.splits)
next
  fix k old n
  assume "Val sf = VUint k old \<and> ParseUint s = Inr n"
  then have "absorbField L toxicValues True [] sf =
     (if fitsUint (uintBits L k) n then Some (Success, sf\<lparr>Val := VUint k n\<rparr>)
      else Some (Failure (Incompatible s (Unsigned k)), sf))"
    using assms(2,3) by (intro absorbField_unsigned) simp_all
  then show "Decode L toxicValues (Some (PtrTo (StructVal (pre @ sf # post)))) =
          (if fitsUint (uintBits L k) n then
             (case absorbValue L toxicValues True post [] of
                None \<Rightarrow> None
              | Some (r, post') \<Rightarrow>
                  Some (r, Some (PtrTo (StructVal (pre' @ sf\<lparr>Val := VUint k n\<rparr> # post')))))
           else Some (Failure (Incompatible s (Unsigned k)),
                  Some (PtrTo (StructVal (pre' @ sf # post)))))"
    by (simp add: Decode_pointer_to_struct absorbValue_after_prefix [OF assms(1)]
        split: option.splits)
qed (rule errorText_incompatible)+

theorem integer_width_witness:
  "absorbValue lib64 [''B'' \<mapsto> [''127''], ''C'' \<mapsto> [''65536'']] True [] [] = Some (Success, [])
   \<and> primitive (plainField ''B'' (VInt Int8 0 :: unit gval))
   \<and> [''B'' \<mapsto> [''127''], ''C'' \<mapsto> [''65536'']] (lookupName (plainField ''B'' (VInt Int8 0 :: unit gval)))
       = Some (''127'' # [])
   \<and> ParseInt ''127'' = Inr 127
   \<and> fitsInt (intBits lib64 Int8) 127 \<and> \<not> fitsInt (intBits lib64 Int8) 128
   \<and> Decode lib64 [''B'' \<mapsto> [''127''], ''C'' \<mapsto> [''65536'']]
        (Some (PtrTo (StructVal ([] @ plainField ''B'' (VInt Int8 0) # []))))
      = Some (Success, Some (PtrTo (StructVal [plainField ''B'' (VInt Int8 127)])))
   \<and> primitive (plainField ''C'' (VUint Uint16 0 :: unit gval))
   \<and> [''B'' \<mapsto> [''127''], ''C'' \<mapsto> [''65536'']] (lookupName (plainField ''C'' (VUint Uint16 0 :: unit gval)))
       = Some (''65536'' # [])
   \<and> ParseUint ''65536'' = Inr 65536
   \<and> fitsUint (uintBits lib64 Uint16) 65535 \<and> \<not> fitsUint (uintBits lib64 Uint16) 65536
   \<and> Decode lib64 [''B'' \<mapsto> [''127''], ''C'' \<mapsto> [''65536'']]
        (Some (PtrTo (StructVal ([] @ plainField ''C'' (VUint Uint16 0) # []))))
      = Some (Failure (Incompatible ''65536'' (Unsigned Uint16)),
          Some (PtrTo (StructVal [plainField ''C'' (VUint Uint16 0)])))
   \<and> sublist ''incompatible''
        (errorText lib64 (Incompatible ''65536'' (Unsigned Uint16)))"
proof -
  let ?tv = "[''B'' \<mapsto> [''127''], ''C'' \<mapsto> [''65536'']]"
  let ?B = "plainField ''B'' (VInt Int8 0 :: unit gval)"
  let ?C = "plainField ''C'' (VUint Uint16 0 :: unit gval)"
  have h1: "absorbValue lib64 ?tv True [] [] = Some (Success, [])" by simp
  have b2: "primitive ?B" by (simp add: eval_simps)
  have b3: "?tv (lookupName ?B) = Some (''127'' # [])" by (simp add: eval_simps)
  have b4: "Val ?B = VInt Int8 0 \<and> ParseInt ''127'' = Inr 127" by (simp add: eval_simps)
  have b5: "fitsInt (intBits lib64 Int8) 127 \<and> \<not> fitsInt (intBits lib64 Int8) 128"
    by (simp add: fitsInt_def)
  have c2: "primitive ?C" by (simp add: eval_simps)
  have c3: "?tv (lookupName ?C) = Some (''65536'' # [])" by (simp add: eval_simps)
  have c4: "Val ?C = VUint Uint16 0 \<and> ParseUint ''65536'' = Inr 65536"
    by (simp add: eval_simps)
  have c5: "fitsUint (uintBits lib64 Uint16) 65535 \<and> \<not> fitsUint (uintBits lib64 Uint16) 65536"
    by (simp add: fitsUint_def)
  have B: "Decode lib64 ?tv (Some (PtrTo (StructVal ([] @ ?B # []))))
      = Some (Success, Some (PtrTo (StructVal [plainField ''B'' (VInt Int8 127)])))"
    using integer_width [OF h1 b2 b3, of "[]", THEN conjunct1, rule_format, OF b4] b5
    by (simp add: plainField_def)
  have C: "Decode lib64 ?tv (Some (PtrTo (StructVal ([] @ ?C # []))))
      = Some (Failure (Incompatible ''65536'' (Unsigned Uint16)),
          Some (PtrTo (StructVal [plainField ''C'' (VUint Uint16 0)])))
     \<and> sublist ''incompatible''
        (errorText lib64 (Incompatible ''65536'' (Unsigned Uint16)))"
    using integer_width [OF h1 c2 c3, of "[]", THEN conjunct2, rule_format, OF c4] c5
    by (simp add: plainField_def)
  from h1 b2 b3 b4 b5 B c2 c3 c4 c5 C show ?thesis by blast
qed

subsection \<open>C6: a kind without a conversion\<close>

text \<open>
  C6 says that \<open>Decode\<close> fails with \<open>Unsupported\<close> for every field of a kind without
  a conversion when the input has a value for it. On the record with the one
  field \<open>B\<close>, a slice, and the input \<open>B = ["1"]\<close>, \<open>Decode\<close> returns the nil error:
  \<open>absorbValue\<close> passes over slices and arrays before it looks at the input.
\<close>

theorem unsupported_kind_counterexample:
  "Decode lib64 [''B'' \<mapsto> [''1'']] (Some (PtrTo (StructVal [plainField ''B'' (VOther Slice)])))
     = Some (Success, Some (PtrTo (StructVal [plainField ''B'' (VOther Slice)])))"
  by (simp add: eval_simps)

text \<open>
  C6 (as amended): for every field that goes the way of the primitive conversion
  (so: not a slice nor an array, which \<open>absorbValue\<close> passes over) and is of a kind
  that \<open>convertString\<close> sends to \<open>default\<close>, pointers apart, once the fields before
  it are decoded without error and the input has a non-empty sequence for its
  name, \<open>Decode\<close> returns the error \<open>Unsupported\<close>, whose text contains
  "Unsupported" and the name of the kind, with the field unchanged.
\<close>

theorem unsupported_kind:
  assumes "absorbValue L toxicValues True pre [] = Some (Success, pre')"
    and "primitive sf" and "Val sf = VOther k"
    and "toxicValues (lookupName sf) = Some (s # rest)"
  shows "Decode L toxicValues (Some (PtrTo (StructVal (pre @ sf # post))))
           = Some (Failure (Unsupported (Other k)),
               Some (PtrTo (StructVal (pre' @ sf # post))))
     \<and> sublist ''Unsupported'' (errorText L (Unsupported (Other k)))
     \<and> sublist (kindString (Other k)) (errorText L (Unsupported (Other k)))"
proof -
  have "absorbField L toxicValues True [] sf = Some (Failure (Unsupported (Other k)), sf)"
    using assms(2-4)
    by (simp add: absorbField_primitive absorbValue_loop_eq convertString_not_ptr)
  then have "Decode L toxicValues (Some (PtrTo (StructVal (pre @ sf # post))))
           = Some (Failure (Unsupported (Other k)),
               Some (PtrTo (StructVal (pre' @ sf # post))))"
    by (simp add: Decode_pointer_to_struct absorbValue_after_prefix [OF assms(1)])
  with errorText_Unsupported [where k = "Other k" and L = L] show ?thesis by blast
qed

theorem unsupported_kind_witness:
  "absorbValue lib64 [''B'' \<mapsto> [''65536.282'']] True [] [] = Some (Success, [])
   \<and> primitive (plainField ''B'' (VOther Complex128 :: unit gval))
   \<and> Val (plainField ''B'' (VOther Complex128 :: unit gval)) = VOther Complex128
   \<and> [''B'' \<mapsto> [''65536.282'']] (lookupName (plainField ''B'' (VOther Complex128 :: unit gval)))
       = Some (''65536.282'' # [])
   \<and> Decode lib64 [''B'' \<mapsto> [''65536.282'']]
        (Some (PtrTo (StructVal ([] @ plainField ''B'' (VOther Complex128) # []))))
      = Some (Failure (Unsupported (Other Complex128)),
          Some (PtrTo (StructVal ([] @ plainField ''B'' (VOther Complex128) # []))))
   \<and> sublist ''Unsupported'' (errorText lib64 (Unsupported (Other Complex128)))
   \<and> sublist (kindString (Other Complex128)) (errorText lib64 (Unsupported (Other Complex128)))"
proof -
  let ?tv = "[''B'' \<mapsto> [''65536.282'']]"
  let ?B = "plainField ''B'' (VOther Complex128 :: unit gval)"
  have h1: "absorbValue lib64 ?tv True [] [] = Some (Success, [])" by simp
  have h2: "primitive ?B" by (simp add: eval_simps)
  have h3: "Val ?B = VOther Complex128" by (simp add: eval_simps)
  have h4: "?tv (lookupName ?B) = Some (''65536.282'' # [])" by (simp add: eval_simps)
  from unsupported_kind [OF h1 h2 h3 h4, of "[]"] h1 h2 h3 h4 show ?thesis by blast
qed

subsection \<open>C7: the shape of the target\<close>

text \<open>
  C7: \<open>Decode\<close> returns the nil error and leaves the target as it is when the
  target is the nil interface or its pointers lead to a nil pointer; when the
  pointers lead to a value, it returns the error \<open>ExpectsStruct\<close> if and only if
  that value is not a record, and then the error names the kind of the value
  and the target is as it was.
\<close>

theorem Decode_target_shape:
  "Decode L toxicValues None = Some (Success, None)
   \<and> (indirect val = None \<longrightarrow> Decode L toxicValues (Some val) = Some (Success, Some val))
   \<and> (\<forall>x. indirect val = Some x \<longrightarrow>
        ((\<exists>k v'. Decode L toxicValues (Some val) = Some (Failure (ExpectsStruct k), v'))
           \<longleftrightarrow> \<not> isStruct x)
        \<and> (\<not> isStruct x \<longrightarrow>
             Decode L toxicValues (Some val)
               = Some (Failure (ExpectsStruct (tkind x)), Some val)
             \<and> sublist (kindString (tkind x)) (errorText L (ExpectsStruct (tkind x)))))"
proof (intro conjI allI impI)
  show "Decode L toxicValues None = Some (Success, None)" by simp
next
  assume "indirect val = None"
  then show "Decode L toxicValues (Some val) = Some (Success, Some val)"
    by (simp add: Decode_loop_indirect_None)
next
  fix x
  assume x: "indirect val = Some x"
  show "(\<exists>k v'. Decode L toxicValues (Some val) = Some (Failure (ExpectsStruct k), v'))
          \<longleftrightarrow> \<not> isStruct x"
  proof (cases "isStruct x")
    case True
    then obtain fs where "x = StructVal fs" by (cases x) auto
    with x have "\<And>r val' k. Decode_loop L toxicValues False val = Some (r, val')
        \<Longrightarrow> r \<noteq> Failure (ExpectsStruct k)"
      by (auto dest: Decode_loop_indirect_StructVal)
    with True show ?thesis
      by (auto split: option.splits prod.splits)
  next
    case False
    with indirect_Some_cases [OF x] obtain k where "x = OtherVal k" by auto
    with x False show ?thesis
      by (simp add: Decode_loop_indirect_OtherVal)
  qed
next
  fix x
  assume x: "indirect val = Some x" and ns: "\<not> isStruct x"
  with indirect_Some_cases [OF x] obtain k where k: "x = OtherVal k" by auto
  with x show "Decode L toxicValues (Some val)
      = Some (Failure (ExpectsStruct (tkind x)), Some val)"
    by (simp add: Decode_loop_indirect_OtherVal)
next
  fix x
  show "sublist (kindString (tkind x)) (errorText L (ExpectsStruct (tkind x)))"
    unfolding errorText.simps by (rule sublist_append_leftI)
qed

theorem Decode_target_shape_witness:
  "indirect (PtrTo (PtrTo NilPtr) :: unit tvalue) = None
   \<and> Decode lib64 [''B'' \<mapsto> [''1'']] (Some (PtrTo (PtrTo NilPtr)))
       = Some (Success, Some (PtrTo (PtrTo NilPtr)))
   \<and> indirect (PtrTo (OtherVal (Signed GoInt)) :: unit tvalue) = Some (OtherVal (Signed GoInt))
   \<and> \<not> isStruct (OtherVal (Signed GoInt) :: unit tvalue)
   \<and> Decode lib64 [''B'' \<mapsto> [''1'']] (Some (PtrTo (OtherVal (Signed GoInt))))
       = Some (Failure (ExpectsStruct (tkind (OtherVal (Signed GoInt) :: unit tvalue))),
           Some (PtrTo (OtherVal (Signed GoInt))))
   \<and> indirect (PtrTo (StructVal [plainField ''B'' (VInt Int8 0 :: unit gval)]))
       = Some (StructVal [plainField ''B'' (VInt Int8 0)])
   \<and> isStruct (StructVal [plainField ''B'' (VInt Int8 0 :: unit gval)])
   \<and> \<not> (\<exists>k v'. Decode lib64 [''B'' \<mapsto> [''1'']]
             (Some (PtrTo (StructVal [plainField ''B'' (VInt Int8 0)])))
            = Some (Failure (ExpectsStruct k), v'))"
proof -
  let ?tv = "[''B'' \<mapsto> [''1'']]"
  let ?n = "PtrTo (PtrTo NilPtr) :: unit tvalue"
  let ?o = "PtrTo (OtherVal (Signed GoInt)) :: unit tvalue"
  let ?s = "PtrTo (StructVal [plainField ''B'' (VInt Int8 0 :: unit gval)])"
  have n: "indirect ?n = None" by simp
  have o: "indirect ?o = Some (OtherVal (Signed GoInt))" by simp
  have o': "\<not> isStruct (OtherVal (Signed GoInt) :: unit tvalue)" by simp
  have s: "indirect ?s = Some (StructVal [plainField ''B'' (VInt Int8 0)])" by simp
  have s': "isStruct (StructVal [plainField ''B'' (VInt Int8 0 :: unit gval)])" by simp
  from Decode_target_shape [of lib64 ?tv ?n] n
  have 1: "Decode lib64 ?tv (Some ?n) = Some (Success, Some ?n)" by blast
  from Decode_target_shape [of lib64 ?tv ?o] o o'
  have 2: "Decode lib64 ?tv (Some ?o)
       = Some (Failure (ExpectsStruct (tkind (OtherVal (Signed GoInt) :: unit tvalue))), Some ?o)"
    by blast
  from Decode_target_shape [of lib64 ?tv ?s] s s'
  have 3: "\<not> (\<exists>k v'. Decode lib64 ?tv (Some ?s) = Some (Failure (ExpectsStruct k), v'))"
    by blast
  from n o o' s s' 1 2 3 show ?thesis by blast
qed

subsection \<open>C8: a name without a value\<close>

text \<open>
  C8 says that a field whose name is in the input with an empty sequence keeps
  its value. On the record with the one boolean field \<open>E\<close>, tagged \<open>scale,seen\<close> and
  false, and the input in which \<open>scale\<close> has the empty sequence, the field is true
  afterwards: for the \<open>seen\<close> option only the key counts.
\<close>

theorem absent_key_counterexample:
  "[''scale'' \<mapsto> []] (lookupName (taggedField ''E'' ''scale,seen'' (VBool False :: unit gval)))
     = Some []
   \<and> Decode lib64 [''scale'' \<mapsto> []]
        (Some (PtrTo (StructVal [taggedField ''E'' ''scale,seen'' (VBool False)])))
     = Some (Success, Some (PtrTo (StructVal [taggedField ''E'' ''scale,seen'' (VBool True)])))"
  by (simp add: eval_simps taggedField_def)

text \<open>
  C8 (as amended): for the field at index \<open>i\<close> of a record, when its name is absent
  from the input, or is there with an empty sequence and the field does not
  carry the \<open>seen\<close> option, the field's step changes nothing and gives no error,
  and whenever \<open>Decode\<close> returns the field is as it was before the call.
\<close>

theorem absent_key_keeps_field:
  assumes "i < length fs"
    and "toxicValues (lookupName (fs ! i)) = None
     \<or> (toxicValues (lookupName (fs ! i)) = Some []
          \<and> \<not> Contains (tagOpts (fs ! i)) ''seen'')"
  shows "absorbField L toxicValues canSet [] (fs ! i) = Some (Success, fs ! i)
     \<and> (\<forall>r v'. Decode L toxicValues (Some (PtrTo (StructVal fs))) = Some (r, v') \<longrightarrow>
           (\<exists>fs'. v' = Some (PtrTo (StructVal fs')) \<and> length fs' = length fs
              \<and> fs' ! i = fs ! i))"
proof (intro conjI allI impI)
  show step: "absorbField L toxicValues canSet [] (fs ! i) = Some (Success, fs ! i)"
    for canSet
    using assms(2) by (rule absorbField_no_value)
  fix r v'
  assume "Decode L toxicValues (Some (PtrTo (StructVal fs))) = Some (r, v')"
  then obtain fs' where fs': "absorbValue L toxicValues True fs [] = Some (r, fs')"
    and v': "v' = Some (PtrTo (StructVal fs'))"
    by (auto simp: Decode_pointer_to_struct split: option.splits prod.splits)
  from absorbValue_nth [OF fs' assms(1)] step [of True] have "fs' ! i = fs ! i"
    by auto
  with v' absorbValue_length [OF fs']
  show "\<exists>fs'. v' = Some (PtrTo (StructVal fs')) \<and> length fs' = length fs
      \<and> fs' ! i = fs ! i"
    by simp
qed

theorem absent_key_keeps_field_witness:
  "(1::nat) < length [plainField ''A'' (VString ''old'' :: unit gval),
                      plainField ''B'' (VInt Int8 5), plainField ''C'' (VUint Uint16 0)]
   \<and> [''A'' \<mapsto> [''Johnny''], ''C'' \<mapsto> [''65536'']]
        (lookupName ([plainField ''A'' (VString ''old'' :: unit gval),
                      plainField ''B'' (VInt Int8 5), plainField ''C'' (VUint Uint16 0)] ! 1))
      = None
   \<and> absorbField lib64 [''A'' \<mapsto> [''Johnny''], ''C'' \<mapsto> [''65536'']] True []
        ([plainField ''A'' (VString ''old'' :: unit gval),
          plainField ''B'' (VInt Int8 5), plainField ''C'' (VUint Uint16 0)] ! 1)
      = Some (Success, [plainField ''A'' (VString ''old'' :: unit gval),
          plainField ''B'' (VInt Int8 5), plainField ''C'' (VUint Uint16 0)] ! 1)
   \<and> Decode lib64 [''A'' \<mapsto> [''Johnny''], ''C'' \<mapsto> [''65536'']]
        (Some (PtrTo (StructVal [plainField ''A'' (VString ''old''),
                      plainField ''B'' (VInt Int8 5), plainField ''C'' (VUint Uint16 0)])))
      = Some (Failure (Incompatible ''65536'' (Unsigned Uint16)),
          Some (PtrTo (StructVal [plainField ''A'' (VString ''Johnny''),
                      plainField ''B'' (VInt Int8 5), plainField ''C'' (VUint Uint16 0)])))"
proof -
  let ?fs = "[plainField ''A'' (VString ''old'' :: unit gval),
              plainField ''B'' (VInt Int8 5), plainField ''C'' (VUint Uint16 0)]"
  let ?tv = "[''A'' \<mapsto> [''Johnny''], ''C'' \<mapsto> [''65536'']]"
  have h1: "(1::nat) < length ?fs" by simp
  have h2: "?tv (lookupName (?fs ! 1)) = None" by (simp add: eval_simps)
  then have h2': "?tv (lookupName (?fs ! 1)) = None
     \<or> (?tv (lookupName (?fs ! 1)) = Some [] \<and> \<not> Contains (tagOpts (?fs ! 1)) ''seen'')"
    by (rule disjI1)
  have d: "Decode lib64 ?tv (Some (PtrTo (StructVal ?fs)))
      = Some (Failure (Incompatible ''65536'' (Unsigned Uint16)),
          Some (PtrTo (StructVal [plainField ''A'' (VString ''Johnny''),
                      plainField ''B'' (VInt Int8 5), plainField ''C'' (VUint Uint16 0)])))"
    by (simp add: eval_simps)
  from absent_key_keeps_field
    [where fs = ?fs and i = 1 and toxicValues = ?tv and L = lib64 and canSet = True,
      OF h1 h2']
  have "absorbField lib64 ?tv True [] (?fs ! 1) = Some (Success, ?fs ! 1)"
    by (rule conjunct1)
  with h1 h2 d show ?thesis by blast
qed

subsection \<open>C9: only the first value\<close>

text \<open>
  C9: when two inputs have the same keys and under every key two sequences that
  are both empty or both non-empty with the same first element, \<open>Decode\<close> does the
  same on every target: the same result and the same target afterwards, or no
  return in both.
\<close>

theorem first_value_only:
  assumes "\<forall>k. sameFirst (toxicValues1 k) (toxicValues2 k)"
  shows "Decode L toxicValues1 v = Decode L toxicValues2 v"
  by (cases v) (simp_all add: Decode_loop_sameFirst [OF assms])

theorem first_value_only_witness:
  "(\<forall>k. sameFirst ([''A'' \<mapsto> [''x'', ''y''], ''B'' \<mapsto> []] k) ([''A'' \<mapsto> [''x''], ''B'' \<mapsto> []] k))
   \<and> Decode lib64 [''A'' \<mapsto> [''x'', ''y''], ''B'' \<mapsto> []]
        (Some (PtrTo (StructVal [plainField ''A'' (VString []), plainField ''B'' (VInt Int8 3)])))
     = Decode lib64 [''A'' \<mapsto> [''x''], ''B'' \<mapsto> []]
        (Some (PtrTo (StructVal [plainField ''A'' (VString []), plainField ''B'' (VInt Int8 3)])))
   \<and> Decode lib64 [''A'' \<mapsto> [''x''], ''B'' \<mapsto> []]
        (Some (PtrTo (StructVal [plainField ''A'' (VString []), plainField ''B'' (VInt Int8 3)])))
     = Some (Success,
         Some (PtrTo (StructVal [plainField ''A'' (VString ''x''), plainField ''B'' (VInt Int8 3)])))"
proof -
  have h: "\<forall>k. sameFirst ([''A'' \<mapsto> [''x'', ''y''], ''B'' \<mapsto> []] k)
      ([''A'' \<mapsto> [''x''], ''B'' \<mapsto> []] k)"
    by simp
  have d: "Decode lib64 [''A'' \<mapsto> [''x''], ''B'' \<mapsto> []]
        (Some (PtrTo (StructVal [plainField ''A'' (VString []), plainField ''B'' (VInt Int8 3)])))
     = Some (Success,
         Some (PtrTo (StructVal [plainField ''A'' (VString ''x''), plainField ''B'' (VInt Int8 3)])))"
    by (simp add: eval_simps)
  from first_value_only [OF h] h d show ?thesis by blast
qed

subsection \<open>C10: a record passed by value\<close>

text \<open>
  C10 says that \<open>Decode\<close> on a record passed by value returns the nil error. On the
  record with the one field \<open>P\<close>, a nil pointer, passed by value, and the input
  \<open>P = ["1"]\<close>, it returns the error of \<open>convertString\<close> for a nil pointer, which is
  tested before the slot is asked whether it can be set.
\<close>

theorem struct_by_value_counterexample:
  "Decode lib64 [''P'' \<mapsto> [''1'']] (Some (StructVal [plainField ''P'' (VPtr None)]))
     = Some (Failure NilPointer, Some (StructVal [plainField ''P'' (VPtr None)]))"
  by (simp add: eval_simps)

text \<open>
  C10 (as amended): when \<open>Decode\<close> is given a record by value, whatever it returns
  is never an \<open>Incompatible\<close>, an \<open>Unsupported\<close> or a parse error; and when no field
  for which the input has a value to decode is a pointer or of a type that
  implements \<open>Decoder\<close>, it returns the nil error and the record is unchanged.
\<close>

theorem struct_by_value:
  "(\<forall>r v'. Decode L toxicValues (Some (StructVal fs)) = Some (r, v') \<longrightarrow>
      (\<forall>s k. r \<noteq> Failure (Incompatible s k)) \<and> (\<forall>k. r \<noteq> Failure (Unsupported k))
      \<and> (\<forall>e. r \<noteq> Failure (ParseError e)))
   \<and> ((\<forall>sf \<in> set fs.
          considered sf \<and> \<not> Contains (tagOpts sf) ''seen''
          \<and> toxicValues (lookupName sf) \<noteq> None \<and> toxicValues (lookupName sf) \<noteq> Some []
          \<longrightarrow> Impl sf = NotDecoder \<and> Kind (Val sf) \<noteq> Ptr)
       \<longrightarrow> Decode L toxicValues (Some (StructVal fs)) = Some (Success, Some (StructVal fs)))"
proof (intro conjI allI impI)
  fix r v'
  assume "Decode L toxicValues (Some (StructVal fs)) = Some (r, v')"
  then obtain fs' where "absorbValue L toxicValues False fs [] = Some (r, fs')"
    by (auto simp: Decode_struct_by_value split: option.splits prod.splits)
  from absorbValue_not_settable [OF this]
  have r: "r = Success \<or> r = Failure NilPointer \<or> r = Panic
      \<or> (\<exists>e. r = Failure (DecoderError e))" .
  from r show "\<And>s k. r \<noteq> Failure (Incompatible s k)" by auto
  from r show "\<And>k. r \<noteq> Failure (Unsupported k)" by auto
  from r show "\<And>e. r \<noteq> Failure (ParseError e)" by auto
next
  assume "\<forall>sf \<in> set fs.
          considered sf \<and> \<not> Contains (tagOpts sf) ''seen''
          \<and> toxicValues (lookupName sf) \<noteq> None \<and> toxicValues (lookupName sf) \<noteq> Some []
          \<longrightarrow> Impl sf = NotDecoder \<and> Kind (Val sf) \<noteq> Ptr"
  then show "Decode L toxicValues (Some (StructVal fs)) = Some (Success, Some (StructVal fs))"
    by (simp add: Decode_struct_by_value absorbValue_by_value_plain)
qed

theorem struct_by_value_witness:
  "Impl (plainField ''B'' (VInt Int8 0 :: unit gval)) = NotDecoder
   \<and> Kind (Val (plainField ''B'' (VInt Int8 0 :: unit gval))) \<noteq> Ptr
   \<and> Decode lib64 [''B'' \<mapsto> [''128'']] (Some (StructVal [plainField ''B'' (VInt Int8 0)]))
     = Some (Success, Some (StructVal [plainField ''B'' (VInt Int8 0)]))"
proof -
  let ?fs = "[plainField ''B'' (VInt Int8 0 :: unit gval)]"
  let ?tv = "[''B'' \<mapsto> [''128'']]"
  have h: "Impl (plainField ''B'' (VInt Int8 0 :: unit gval)) = NotDecoder
     \<and> Kind (Val (plainField ''B'' (VInt Int8 0 :: unit gval))) \<noteq> Ptr"
    by (simp add: eval_simps)
  then have h': "\<forall>sf \<in> set ?fs.
          considered sf \<and> \<not> Contains (tagOpts sf) ''seen''
          \<and> ?tv (lookupName sf) \<noteq> None \<and> ?tv (lookupName sf) \<noteq> Some []
          \<longrightarrow> Impl sf = NotDecoder \<and> Kind (Val sf) \<noteq> Ptr"
    by simp
  from struct_by_value [of lib64 ?tv ?fs] h'
  have "Decode lib64 ?tv (Some (StructVal ?fs)) = Some (Success, Some (StructVal ?fs))"
    by blast
  with h show ?thesis by blast
qed

end
